theory Spec2Isabelle
  imports Complex_Main
begin

section \<open>Numbers\<close>

text \<open>
  The program computes with JavaScript Numbers. Finite values are modelled as reals
  (no rounding error, no overflow, a single zero); the non-finite results of a division
  by zero are kept, since the program stores them.
\<close>

datatype jsnum = Fin real | PosInf | NegInf | NaN

text \<open>\<^verbatim>\<open>a / b\<close> on finite operands.\<close>

definition js_div :: "real \<Rightarrow> real \<Rightarrow> jsnum" where
  "js_div a b =
     (if b \<noteq> 0 then Fin (a / b)
      else if 0 < a then PosInf
      else if a < 0 then NegInf
      else NaN)"

text \<open>\<^verbatim>\<open>x * c\<close> for a finite right operand.\<close>

fun js_times :: "jsnum \<Rightarrow> real \<Rightarrow> jsnum" where
  "js_times (Fin a) c = Fin (a * c)"
| "js_times PosInf c = (if 0 < c then PosInf else if c < 0 then NegInf else NaN)"
| "js_times NegInf c = (if 0 < c then NegInf else if c < 0 then PosInf else NaN)"
| "js_times NaN c = NaN"

text \<open>\<^verbatim>\<open>x < y\<close>: every comparison with NaN is false.\<close>

fun js_less :: "jsnum \<Rightarrow> jsnum \<Rightarrow> bool" where
  "js_less (Fin a) (Fin b) = (a < b)"
| "js_less (Fin a) PosInf = True"
| "js_less NegInf (Fin b) = True"
| "js_less NegInf PosInf = True"
| "js_less _ _ = False"

text \<open>\<^verbatim>\<open>Math.round\<close>: the nearest integer, a tie going towards plus infinity.\<close>

definition Math_round :: "real \<Rightarrow> int" where
  "Math_round x = \<lfloor>x + 1 / 2\<rfloor>"

section \<open>Dates\<close>

text \<open>
  A \<^verbatim>\<open>Date\<close> is its time value: milliseconds since the epoch. The functions below
  are the ones ECMA-262 defines for \<^verbatim>\<open>Date\<close> (Day, TimeWithinDay, DaysInYear,
  DayFromYear, YearFromTime, InLeapYear, MonthFromTime, DateFromTime, WeekDay, MakeTime,
  MakeDay, MakeDate), followed by the methods of \<^verbatim>\<open>Date\<close> the program calls.
  Time values are unbounded integers (the range limit of \<^verbatim>\<open>Date\<close> is not modelled).
  The time zone of the host is a parameter \<open>z\<close>: \<open>utcOffset z t\<close> is the offset of local
  time from UTC in milliseconds at the instant \<open>t\<close> (LocalTZA with a UTC time), and
  \<open>localOffset z x\<close> is the offset the zone uses to read the local time \<open>x\<close> (LocalTZA
  with a local time: for a local time that a clock change skips or repeats, the offset
  before the change). A zone without daylight saving has one offset, \<open>fixedZone\<close>.
  \<open>YearFromDay d\<close> is the largest year whose first day is not after \<open>d\<close>, found by a
  search upwards from a lower estimate.
\<close>

definition msPerDay :: int where
  "msPerDay = 86400000"

definition Day :: "int \<Rightarrow> int" where
  "Day t = t div msPerDay"

definition TimeWithinDay :: "int \<Rightarrow> int" where
  "TimeWithinDay t = t mod msPerDay"

definition DaysInYear :: "int \<Rightarrow> int" where
  "DaysInYear y =
     (if y mod 4 \<noteq> 0 then 365
      else if y mod 100 \<noteq> 0 then 366
      else if y mod 400 \<noteq> 0 then 365
      else 366)"

definition DayFromYear :: "int \<Rightarrow> int" where
  "DayFromYear y =
     365 * (y - 1970) + (y - 1969) div 4 - (y - 1901) div 100 + (y - 1601) div 400"

function year_search :: "int \<Rightarrow> int \<Rightarrow> int" where
  "year_search y d = (if DayFromYear (y + 1) \<le> d then year_search (y + 1) d else y)"
  by pat_completeness auto
termination
proof (relation "measure (\<lambda>(y, d). nat (d + 1 - DayFromYear (y + 1)))")
  show "wf (measure (\<lambda>(y, d). nat (d + 1 - DayFromYear (y + 1))))" by simp
next
  fix y d :: int
  assume a: "DayFromYear (y + 1) \<le> d"
  have lin: "x' = x + 1 \<Longrightarrow> a \<le> a' \<Longrightarrow> b' \<le> b + 1 \<Longrightarrow> c \<le> c'
      \<Longrightarrow> 365 * x + a - b + c < 365 * x' + a' - b' + c'"
    for x x' a a' b b' c c' :: int
    by linarith
  have "DayFromYear (y + 1) < DayFromYear (y + 1 + 1)"
    unfolding DayFromYear_def
  proof (rule lin)
    show "y + 1 + 1 - 1970 = y + 1 - 1970 + 1" by simp
    show "(y + 1 - 1969) div 4 \<le> (y + 1 + 1 - 1969) div 4"
      by (rule zdiv_mono1) simp_all
    have "(y + 1 + 1 - 1901) div 100 \<le> (y + 1 - 1901 + 100) div 100"
      by (rule zdiv_mono1) simp_all
    also have "\<dots> = (y + 1 - 1901) div 100 + 1"
      by (simp only: div_add_self2)
    finally show "(y + 1 + 1 - 1901) div 100 \<le> (y + 1 - 1901) div 100 + 1" .
    show "(y + 1 - 1601) div 400 \<le> (y + 1 + 1 - 1601) div 400"
      by (rule zdiv_mono1) simp_all
  qed
  with a show "((y + 1, d), (y, d)) \<in> measure (\<lambda>(y, d). nat (d + 1 - DayFromYear (y + 1)))"
    by simp
qed

definition YearFromDay :: "int \<Rightarrow> int" where
  "YearFromDay d = year_search (1970 + (if 0 \<le> d then d div 366 else d div 365)) d"

definition YearFromTime :: "int \<Rightarrow> int" where
  "YearFromTime t = YearFromDay (Day t)"

definition InLeapYear :: "int \<Rightarrow> int" where
  "InLeapYear t = (if DaysInYear (YearFromTime t) = 366 then 1 else 0)"

definition DayWithinYear :: "int \<Rightarrow> int" where
  "DayWithinYear t = Day t - DayFromYear (YearFromTime t)"

definition month_of :: "int \<Rightarrow> int \<Rightarrow> int" where
  "month_of d l =
     (if d < 31 then 0
      else if d < 59 + l then 1
      else if d < 90 + l then 2
      else if d < 120 + l then 3
      else if d < 151 + l then 4
      else if d < 181 + l then 5
      else if d < 212 + l then 6
      else if d < 243 + l then 7
      else if d < 273 + l then 8
      else if d < 304 + l then 9
      else if d < 334 + l then 10
      else 11)"

definition MonthFromTime :: "int \<Rightarrow> int" where
  "MonthFromTime t = month_of (DayWithinYear t) (InLeapYear t)"

definition daysBeforeMonth :: "int \<Rightarrow> int \<Rightarrow> int" where
  "daysBeforeMonth m l =
     (if m = 0 then 0
      else if m = 1 then 31
      else if m = 2 then 59 + l
      else if m = 3 then 90 + l
      else if m = 4 then 120 + l
      else if m = 5 then 151 + l
      else if m = 6 then 181 + l
      else if m = 7 then 212 + l
      else if m = 8 then 243 + l
      else if m = 9 then 273 + l
      else if m = 10 then 304 + l
      else 334 + l)"

definition DateFromTime :: "int \<Rightarrow> int" where
  "DateFromTime t =
     DayWithinYear t + 1 - daysBeforeMonth (MonthFromTime t) (InLeapYear t)"

definition WeekDay :: "int \<Rightarrow> int" where
  "WeekDay t = (Day t + 4) mod 7"

definition MakeTime :: "int \<Rightarrow> int \<Rightarrow> int \<Rightarrow> int \<Rightarrow> int" where
  "MakeTime h m s ms = h * 3600000 + m * 60000 + s * 1000 + ms"

definition MakeDay :: "int \<Rightarrow> int \<Rightarrow> int \<Rightarrow> int" where
  "MakeDay y m dt =
     DayFromYear (y + m div 12)
     + daysBeforeMonth (m mod 12) (if DaysInYear (y + m div 12) = 366 then 1 else 0)
     + dt - 1"

definition MakeDate :: "int \<Rightarrow> int \<Rightarrow> int" where
  "MakeDate day time = day * msPerDay + time"

text \<open>
  The time zone, and the conversions LocalTime and UTC between an instant and its local
  time.
\<close>

record zone =
  utcOffset :: "int \<Rightarrow> int"
  localOffset :: "int \<Rightarrow> int"

definition LocalTime :: "zone \<Rightarrow> int \<Rightarrow> int" where
  "LocalTime z t = t + utcOffset z t"

definition UTC :: "zone \<Rightarrow> int \<Rightarrow> int" where
  "UTC z t = t - localOffset z t"

definition fixedZone :: "int \<Rightarrow> zone" where
  "fixedZone tza = \<lparr>utcOffset = (\<lambda>t. tza), localOffset = (\<lambda>t. tza)\<rparr>"

definition utcZone :: zone where
  "utcZone = fixedZone 0"

text \<open>
  The methods: a local field of a date is the field of its local time;
  \<^verbatim>\<open>setDate\<close>, \<^verbatim>\<open>setUTCDate\<close> and \<^verbatim>\<open>setHours\<close> return the new time value;
  \<^verbatim>\<open>Date.UTC\<close> reads a year from 0 to 99 as 1900 plus that year.
\<close>

definition getFullYear :: "zone \<Rightarrow> int \<Rightarrow> int" where
  "getFullYear z t = YearFromTime (LocalTime z t)"

definition getMonth :: "zone \<Rightarrow> int \<Rightarrow> int" where
  "getMonth z t = MonthFromTime (LocalTime z t)"

definition getDate :: "zone \<Rightarrow> int \<Rightarrow> int" where
  "getDate z t = DateFromTime (LocalTime z t)"

definition getDay :: "zone \<Rightarrow> int \<Rightarrow> int" where
  "getDay z t = WeekDay (LocalTime z t)"

definition setDate :: "zone \<Rightarrow> int \<Rightarrow> int \<Rightarrow> int" where
  "setDate z t dt =
     UTC z (MakeDate (MakeDay (YearFromTime (LocalTime z t)) (MonthFromTime (LocalTime z t)) dt)
                       (TimeWithinDay (LocalTime z t)))"

definition setHours :: "zone \<Rightarrow> int \<Rightarrow> int \<Rightarrow> int \<Rightarrow> int \<Rightarrow> int \<Rightarrow> int" where
  "setHours z t h m s ms = UTC z (MakeDate (Day (LocalTime z t)) (MakeTime h m s ms))"

definition Date_UTC :: "int \<Rightarrow> int \<Rightarrow> int \<Rightarrow> int" where
  "Date_UTC y m dt =
     MakeDate (MakeDay (if 0 \<le> y \<and> y \<le> 99 then 1900 + y else y) m dt) (MakeTime 0 0 0 0)"

definition setUTCDate :: "int \<Rightarrow> int \<Rightarrow> int" where
  "setUTCDate t dt =
     MakeDate (MakeDay (YearFromTime t) (MonthFromTime t) dt) (TimeWithinDay t)"

text \<open>
  \<^verbatim>\<open>getWeekNumber\<close> and \<^verbatim>\<open>getWeekBounds\<close> of models/WeeklyStats.js (the helpers
  file has the same two functions); the bounds are the pair of start and end.
\<close>

definition getWeekNumber :: "zone \<Rightarrow> int \<Rightarrow> int" where
  "getWeekNumber z date =
     (let d0 = Date_UTC (getFullYear z date) (getMonth z date) (getDate z date);
          dayNum = (if WeekDay d0 = 0 then 7 else WeekDay d0);
          d = setUTCDate d0 (DateFromTime d0 + 4 - dayNum);
          yearStart = Date_UTC (YearFromTime d) 0 1
      in \<lceil>((real_of_int (d - yearStart) / 86400000) + 1) / 7\<rceil>)"

definition getWeekBounds :: "zone \<Rightarrow> int \<Rightarrow> int \<times> int" where
  "getWeekBounds z date =
     (let d = date;
          day = getDay z d;
          diff = getDate z d - day + (if day = 0 then - 6 else 1);
          weekStartDate = setHours z (setDate z d diff) 0 0 0 0;
          weekEndDate =
            setHours z (setDate z weekStartDate (getDate z weekStartDate + 6)) 23 59 59 999
      in (weekStartDate, weekEndDate))"

section \<open>Coins\<close>

text \<open>\<^verbatim>\<open>calculateCoins\<close> of utils/calculateStats.js.\<close>

definition calculateCoins :: "real \<Rightarrow> real \<Rightarrow> int" where
  "calculateCoins distance averageSpeed = Math_round ((distance * averageSpeed) / 2)"

text \<open>
  The rounding rule the specification names: round to nearest, a tie going away
  from zero.
\<close>

definition round_half_away_from_zero :: "real \<Rightarrow> int" where
  "round_half_away_from_zero x = (if 0 \<le> x then \<lfloor>x + 1 / 2\<rfloor> else - \<lfloor>- x + 1 / 2\<rfloor>)"

section \<open>Documents and collections\<close>

text \<open>
  The fields of a ride, a user and a weekly aggregate that the statistics code reads or
  writes. Ids are natural numbers, dates are time values. The database is the collections
  the handlers touch; \<^verbatim>\<open>find\<close> returns documents in the order of the list.
\<close>

record ride =
  rideId :: nat
  userId :: nat
  distance :: real
  elapsedTime :: real
  movingTime :: real
  averageSpeed :: real
  maxSpeed :: real
  elevationGained :: real
  activityDate :: int
  coinsEarned :: int

text \<open>
  Modelled from the spec: the user schema (models/User.js) is not among the source files.
  The fields are those of the specification's UserAggregate, the ones that
  \<^verbatim>\<open>recalculateUserStats\<close> resets: the sums and records are Numbers, a best effort is a
  Number or null.
\<close>

record user =
  totalDistance :: real
  distanceThisYear :: real
  totalCoins :: int
  longestRideDistance :: real
  longestRideTime :: real
  maxElevationGained :: real
  best10kmTime :: "jsnum option"
  best20kmTime :: "jsnum option"
  best25kmTime :: "jsnum option"
  best50kmTime :: "jsnum option"
  best75kmTime :: "jsnum option"
  best100kmTime :: "jsnum option"

record weeklyStat =
  wsUserId :: nat
  year :: int
  weekNumber :: int
  wsTotalDistance :: real
  totalRides :: int
  wsTotalCoins :: int
  totalMovingTime :: real
  wsAverageSpeed :: jsnum
  weekStartDate :: int
  weekEndDate :: int

datatype flagStatus = pending | reviewed | resolved | dismissed

record flag =
  flagId :: nat
  flagRideId :: nat
  status :: flagStatus

record adminLog =
  adminId :: nat
  targetRideId :: nat

record db =
  users :: "nat \<rightharpoonup> user"
  rides :: "ride list"
  weeklyStats :: "weeklyStat list"
  flags :: "flag list"
  adminLogs :: "adminLog list"

datatype error = UserNotFound | ValidationError

section \<open>utils/calculateStats.js\<close>

definition effortDistances :: "nat list" where
  "effortDistances = [10, 20, 25, 50, 75, 100]"

text \<open>
  \<^verbatim>\<open>user[`best${distance}kmTime`]\<close>, read and written. The key is always one of the
  six fields; the last branch is never taken.
\<close>

definition get_effort :: "user \<Rightarrow> nat \<Rightarrow> jsnum option" where
  "get_effort u D =
     (if D = 10 then best10kmTime u
      else if D = 20 then best20kmTime u
      else if D = 25 then best25kmTime u
      else if D = 50 then best50kmTime u
      else if D = 75 then best75kmTime u
      else if D = 100 then best100kmTime u
      else None)"

definition set_effort :: "user \<Rightarrow> nat \<Rightarrow> jsnum \<Rightarrow> user" where
  "set_effort u D v =
     (if D = 10 then u\<lparr>best10kmTime := Some v\<rparr>
      else if D = 20 then u\<lparr>best20kmTime := Some v\<rparr>
      else if D = 25 then u\<lparr>best25kmTime := Some v\<rparr>
      else if D = 50 then u\<lparr>best50kmTime := Some v\<rparr>
      else if D = 75 then u\<lparr>best75kmTime := Some v\<rparr>
      else if D = 100 then u\<lparr>best100kmTime := Some v\<rparr>
      else u)"

text \<open>The callback of \<^verbatim>\<open>effortDistances.forEach\<close> in \<^verbatim>\<open>updateBestEfforts\<close>.\<close>

definition effort_step :: "ride \<Rightarrow> user \<Rightarrow> nat \<Rightarrow> user" where
  "effort_step ride user D =
     (if real D \<le> distance ride then
        (let timeForDistance = js_times (js_div (real D) (averageSpeed ride)) 3600
         in case get_effort user D of
              None \<Rightarrow> set_effort user D timeForDistance
            | Some best \<Rightarrow>
                if js_less timeForDistance best then set_effort user D timeForDistance else user)
      else user)"

definition updateBestEfforts :: "user \<Rightarrow> ride \<Rightarrow> user" where
  "updateBestEfforts user ride = foldl (effort_step ride) user effortDistances"

text \<open>
  \<^verbatim>\<open>updateUserStats\<close>: the assignments to the loaded user document, then the function
  itself, which loads the user, throws when there is none, and saves. \<open>now\<close> is the clock
  that \<^verbatim>\<open>new Date()\<close> reads.
\<close>

definition updateUserStats_fields :: "zone \<Rightarrow> int \<Rightarrow> user \<Rightarrow> ride \<Rightarrow> user" where
  "updateUserStats_fields z now user0 ride =
     (let user1 = user0\<lparr>totalDistance := totalDistance user0 + distance ride\<rparr>;
          currentYear = getFullYear z now;
          rideYear = getFullYear z (activityDate ride);
          user2 = (if rideYear = currentYear
                   then user1\<lparr>distanceThisYear := distanceThisYear user1 + distance ride\<rparr>
                   else user1);
          user3 = user2\<lparr>totalCoins := totalCoins user2 + coinsEarned ride\<rparr>;
          user4 = (if longestRideDistance user3 < distance ride
                   then user3\<lparr>longestRideDistance := distance ride\<rparr> else user3);
          user5 = (if longestRideTime user4 < movingTime ride
                   then user4\<lparr>longestRideTime := movingTime ride\<rparr> else user4);
          user6 = (if maxElevationGained user5 < elevationGained ride
                   then user5\<lparr>maxElevationGained := elevationGained ride\<rparr> else user5)
      in updateBestEfforts user6 ride)"

definition updateUserStats :: "zone \<Rightarrow> int \<Rightarrow> nat \<Rightarrow> ride \<Rightarrow> db \<Rightarrow> error + db" where
  "updateUserStats z now uid ride s =
     (case users s uid of
        None \<Rightarrow> Inl UserNotFound
      | Some user \<Rightarrow>
          Inr (s\<lparr>users := (users s)(uid \<mapsto> updateUserStats_fields z now user ride)\<rparr>))"

text \<open>
  \<^verbatim>\<open>recalculateUserStats\<close>: the loop over the rides, and the function, which loads
  the user, reads the user's rides sorted by activity date (a stable sort), resets
  the aggregate and runs the loop.
\<close>

fun recalculate_loop :: "zone \<Rightarrow> int \<Rightarrow> user \<Rightarrow> ride list \<Rightarrow> user" where
  "recalculate_loop z currentYear user0 [] = user0"
| "recalculate_loop z currentYear user0 (ride # rest) =
     (let user1 = user0\<lparr>totalDistance := totalDistance user0 + distance ride\<rparr>;
          user2 = user1\<lparr>totalCoins := totalCoins user1 + coinsEarned ride\<rparr>;
          rideYear = getFullYear z (activityDate ride);
          user3 = (if rideYear = currentYear
                   then user2\<lparr>distanceThisYear := distanceThisYear user2 + distance ride\<rparr>
                   else user2);
          user4 = (if longestRideDistance user3 < distance ride
                   then user3\<lparr>longestRideDistance := distance ride\<rparr> else user3);
          user5 = (if longestRideTime user4 < movingTime ride
                   then user4\<lparr>longestRideTime := movingTime ride\<rparr> else user4);
          user6 = (if maxElevationGained user5 < elevationGained ride
                   then user5\<lparr>maxElevationGained := elevationGained ride\<rparr> else user5)
      in recalculate_loop z currentYear (updateBestEfforts user6 ride) rest)"

definition recalculateUserStats :: "zone \<Rightarrow> int \<Rightarrow> nat \<Rightarrow> db \<Rightarrow> error + db" where
  "recalculateUserStats z now uid s =
     (case users s uid of
        None \<Rightarrow> Inl UserNotFound
      | Some user \<Rightarrow>
          (let rides = sort_key activityDate (filter (\<lambda>r. userId r = uid) (rides s));
               user0 = user\<lparr>totalDistance := 0, distanceThisYear := 0, totalCoins := 0,
                            longestRideDistance := 0, longestRideTime := 0,
                            maxElevationGained := 0,
                            best10kmTime := None, best20kmTime := None, best25kmTime := None,
                            best50kmTime := None, best75kmTime := None, best100kmTime := None\<rparr>;
               currentYear = getFullYear z now
           in Inr (s\<lparr>users := (users s)(uid \<mapsto> recalculate_loop z currentYear user0 rides)\<rparr>)))"

section \<open>models/WeeklyStats.js\<close>

text \<open>
  \<^verbatim>\<open>getOrCreate\<close> looks the document up by user, year and week number and creates
  it when there is none; the schema accepts a year from 2020 to 2100 and a week number
  from 1 to 53, and \<^verbatim>\<open>create\<close> throws otherwise.
\<close>

definition WeeklyStats_findOne :: "nat \<Rightarrow> int \<Rightarrow> int \<Rightarrow> weeklyStat list \<Rightarrow> weeklyStat option" where
  "WeeklyStats_findOne uid y n ws =
     find (\<lambda>w. wsUserId w = uid \<and> year w = y \<and> weekNumber w = n) ws"

definition getOrCreate :: "zone \<Rightarrow> nat \<Rightarrow> int \<Rightarrow> db \<Rightarrow> error + (weeklyStat \<times> db)" where
  "getOrCreate z uid date s =
     (let y = getFullYear z date;
          n = getWeekNumber z date;
          bounds = getWeekBounds z date
      in case WeeklyStats_findOne uid y n (weeklyStats s) of
           Some weeklyStat \<Rightarrow> Inr (weeklyStat, s)
         | None \<Rightarrow>
             if 2020 \<le> y \<and> y \<le> 2100 \<and> 1 \<le> n \<and> n \<le> 53 then
               (let weeklyStat =
                      \<lparr>wsUserId = uid, year = y, weekNumber = n, wsTotalDistance = 0,
                       totalRides = 0, wsTotalCoins = 0, totalMovingTime = 0,
                       wsAverageSpeed = Fin 0,
                       weekStartDate = fst bounds, weekEndDate = snd bounds\<rparr>
                in Inr (weeklyStat, s\<lparr>weeklyStats := weeklyStats s @ [weeklyStat]\<rparr>))
             else Inl ValidationError)"

text \<open>Saving a document replaces the stored one with the same key.\<close>

fun WeeklyStats_save :: "weeklyStat \<Rightarrow> weeklyStat list \<Rightarrow> weeklyStat list" where
  "WeeklyStats_save w [] = []"
| "WeeklyStats_save w (v # vs) =
     (if wsUserId v = wsUserId w \<and> year v = year w \<and> weekNumber v = weekNumber w
      then w # vs else v # WeeklyStats_save w vs)"

text \<open>
  \<^verbatim>\<open>updateWeeklyStats\<close> of utils/calculateStats.js; it returns the saved document.
  The validators that run when the document is saved are not modelled.
\<close>

definition updateWeeklyStats :: "zone \<Rightarrow> nat \<Rightarrow> ride \<Rightarrow> db \<Rightarrow> error + (weeklyStat \<times> db)" where
  "updateWeeklyStats z uid ride s =
     (case getOrCreate z uid (activityDate ride) s of
        Inl e \<Rightarrow> Inl e
      | Inr (weeklyStat0, s1) \<Rightarrow>
          (let weeklyStat1 = weeklyStat0
                 \<lparr>wsTotalDistance := wsTotalDistance weeklyStat0 + distance ride,
                  totalRides := totalRides weeklyStat0 + 1,
                  wsTotalCoins := wsTotalCoins weeklyStat0 + coinsEarned ride,
                  totalMovingTime := totalMovingTime weeklyStat0 + movingTime ride\<rparr>;
               weeklyStat2 = weeklyStat1
                 \<lparr>wsAverageSpeed :=
                    js_div (wsTotalDistance weeklyStat1) (totalMovingTime weeklyStat1 / 3600)\<rparr>
           in Inr (weeklyStat2,
                   s1\<lparr>weeklyStats := WeeklyStats_save weeklyStat2 (weeklyStats s1)\<rparr>)))"

section \<open>The ride and moderation handlers\<close>

text \<open>
  A handler takes the request and the database and returns the HTTP status and the
  database it leaves. \<^verbatim>\<open>findByIdAndUpdate\<close> with \<^verbatim>\<open>$inc\<close> changes nothing when
  there is no such user.
\<close>

definition inc_totalCoins :: "nat \<Rightarrow> int \<Rightarrow> db \<Rightarrow> db" where
  "inc_totalCoins uid n s =
     (case users s uid of
        None \<Rightarrow> s
      | Some user \<Rightarrow> s\<lparr>users := (users s)(uid \<mapsto> user\<lparr>totalCoins := totalCoins user + n\<rparr>)\<rparr>)"

definition Ride_findById :: "nat \<Rightarrow> db \<Rightarrow> ride option" where
  "Ride_findById rid s = find (\<lambda>r. rideId r = rid) (rides s)"

fun remove_ride :: "nat \<Rightarrow> ride list \<Rightarrow> ride list" where
  "remove_ride rid [] = []"
| "remove_ride rid (r # rs) = (if rideId r = rid then rs else r # remove_ride rid rs)"

definition Ride_findByIdAndDelete :: "nat \<Rightarrow> db \<Rightarrow> db" where
  "Ride_findByIdAndDelete rid s = s\<lparr>rides := remove_ride rid (rides s)\<rparr>"

text \<open>
  Saving a ride: the schema's validators (every number at least 0), then the
  \<^verbatim>\<open>pre('save')\<close> hook that computes the coins again when distance and speed
  are not zero, then the insert.
\<close>

definition Ride_valid :: "ride \<Rightarrow> bool" where
  "Ride_valid r =
     (0 \<le> distance r \<and> 0 \<le> elapsedTime r \<and> 0 \<le> movingTime r \<and> 0 \<le> averageSpeed r
      \<and> 0 \<le> maxSpeed r \<and> 0 \<le> elevationGained r \<and> 0 \<le> coinsEarned r)"

definition Ride_save :: "ride \<Rightarrow> db \<Rightarrow> error + db" where
  "Ride_save r s =
     (if Ride_valid r then
        (let r' = (if distance r \<noteq> 0 \<and> averageSpeed r \<noteq> 0
                   then r\<lparr>coinsEarned := Math_round ((distance r * averageSpeed r) / 2)\<rparr>
                   else r)
         in Inr (s\<lparr>rides := rides s @ [r']\<rparr>))
      else Inl ValidationError)"

text \<open>The numbers of the request body that \<^verbatim>\<open>createRide\<close> reads.\<close>

record rideBody =
  reqDistance :: real
  reqElapsedTime :: real
  reqMovingTime :: real
  reqAverageSpeed :: real
  reqMaxSpeed :: real
  reqElevationGained :: real

text \<open>
  \<^verbatim>\<open>createRide\<close> of controllers/rideController.js; \<open>rid\<close> is the id the new
  document gets, \<open>now\<close> the clock.
\<close>

definition createRide :: "int \<Rightarrow> nat \<Rightarrow> nat \<Rightarrow> rideBody \<Rightarrow> db \<Rightarrow> nat \<times> db" where
  "createRide now rid uid body s =
     (let coins = Math_round ((reqDistance body * reqAverageSpeed body) / 2);
          ride = \<lparr>rideId = rid, userId = uid, distance = reqDistance body,
                  elapsedTime = reqElapsedTime body, movingTime = reqMovingTime body,
                  averageSpeed = reqAverageSpeed body, maxSpeed = reqMaxSpeed body,
                  elevationGained = reqElevationGained body, activityDate = now,
                  coinsEarned = coins\<rparr>
      in case Ride_save ride s of
           Inl e \<Rightarrow> (500, s)
         | Inr s1 \<Rightarrow> (201, inc_totalCoins uid coins s1))"

text \<open>\<^verbatim>\<open>deleteRide\<close> of controllers/rideController.js (the owner deletes a ride).\<close>

definition deleteRide :: "nat \<Rightarrow> nat \<Rightarrow> db \<Rightarrow> nat \<times> db" where
  "deleteRide uid rid s =
     (case Ride_findById rid s of
        None \<Rightarrow> (404, s)
      | Some ride \<Rightarrow>
          if userId ride \<noteq> uid then (403, s)
          else (200, Ride_findByIdAndDelete rid (inc_totalCoins uid (- coinsEarned ride) s)))"

text \<open>\<^verbatim>\<open>deleteRide\<close> and \<^verbatim>\<open>reviewFlag\<close> of controllers/adminController.js.\<close>

definition resolve_pending :: "nat \<Rightarrow> flag \<Rightarrow> flag" where
  "resolve_pending rid f =
     (if flagRideId f = rid \<and> status f = pending then f\<lparr>status := resolved\<rparr> else f)"

definition admin_deleteRide :: "nat \<Rightarrow> nat \<Rightarrow> db \<Rightarrow> nat \<times> db" where
  "admin_deleteRide aid rid s =
     (case Ride_findById rid s of
        None \<Rightarrow> (404, s)
      | Some ride \<Rightarrow>
          (let s1 = inc_totalCoins (userId ride) (- coinsEarned ride) s;
               s2 = s1\<lparr>adminLogs := adminLogs s1 @ [\<lparr>adminId = aid, targetRideId = rid\<rparr>]\<rparr>;
               s3 = Ride_findByIdAndDelete rid s2
           in (200, s3\<lparr>flags := map (resolve_pending rid) (flags s3)\<rparr>)))"

definition set_resolved :: "nat \<Rightarrow> flag \<Rightarrow> flag" where
  "set_resolved fid f = (if flagId f = fid then f\<lparr>status := resolved\<rparr> else f)"

definition reviewFlag :: "nat \<Rightarrow> nat \<Rightarrow> db \<Rightarrow> nat \<times> db" where
  "reviewFlag aid fid s =
     (case find (\<lambda>f. flagId f = fid) (flags s) of
        None \<Rightarrow> (404, s)
      | Some flag \<Rightarrow>
          if status flag \<noteq> pending then (400, s)
          else
            (let s3 = (case Ride_findById (flagRideId flag) s of
                         None \<Rightarrow> s
                       | Some ride \<Rightarrow>
                           (let s1 = inc_totalCoins (userId ride) (- coinsEarned ride) s;
                                s2 = s1\<lparr>adminLogs := adminLogs s1
                                        @ [\<lparr>adminId = aid, targetRideId = rideId ride\<rparr>]\<rparr>
                            in Ride_findByIdAndDelete (flagRideId flag) s2))
             in (200, s3\<lparr>flags := map (set_resolved fid) (flags s3)\<rparr>)))"

text \<open>\<^verbatim>\<open>deleteAccount\<close> of controllers/userController.js.\<close>

definition deleteAccount :: "nat \<Rightarrow> db \<Rightarrow> nat \<times> db" where
  "deleteAccount uid s =
     (200, s\<lparr>rides := filter (\<lambda>r. userId r \<noteq> uid) (rides s), users := (users s)(uid := None)\<rparr>)"

section \<open>The specification's words\<close>

text \<open>
  The aggregate with every sum at 0 and every best effort null, and the replay of a
  list of rides through \<open>updateUserStats\<close>, each call with the clock it runs at.
\<close>

definition zeroed_aggregate :: "user \<Rightarrow> user" where
  "zeroed_aggregate u =
     u\<lparr>totalDistance := 0, distanceThisYear := 0, totalCoins := 0, longestRideDistance := 0,
       longestRideTime := 0, maxElevationGained := 0,
       best10kmTime := None, best20kmTime := None, best25kmTime := None,
       best50kmTime := None, best75kmTime := None, best100kmTime := None\<rparr>"

fun replay :: "zone \<Rightarrow> nat \<Rightarrow> (int \<times> ride) list \<Rightarrow> db \<Rightarrow> error + db" where
  "replay z uid [] s = Inr s"
| "replay z uid ((now, ride) # rest) s =
     (case updateUserStats z now uid ride s of
        Inl e \<Rightarrow> Inl e
      | Inr s1 \<Rightarrow> replay z uid rest s1)"

text \<open>
  What one ride does to the best effort for the distance \<open>D\<close>: nothing when the ride
  is shorter than \<open>D\<close>; otherwise the estimate \<open>D / averageSpeed * 3600\<close> replaces the
  stored value when there is none or when the estimate is strictly smaller.
\<close>

definition best_after :: "ride \<Rightarrow> nat \<Rightarrow> jsnum option \<Rightarrow> jsnum option" where
  "best_after r D old =
     (if distance r < real D then old
      else (let estimatedTime = js_times (js_div (real D) (averageSpeed r)) 3600
            in case old of
                 None \<Rightarrow> Some estimatedTime
               | Some b \<Rightarrow> if js_less estimatedTime b then Some estimatedTime else Some b))"

text \<open>The users after the coins of the ride \<open>r\<close> are taken back from its owner.\<close>

definition coins_reversed :: "ride \<Rightarrow> db \<Rightarrow> (nat \<rightharpoonup> user)" where
  "coins_reversed r s =
     (case users s (userId r) of
        None \<Rightarrow> users s
      | Some u \<Rightarrow> (users s)(userId r \<mapsto> u\<lparr>totalCoins := totalCoins u - coinsEarned r\<rparr>))"

text \<open>A database with no documents.\<close>

definition emptyDb :: db where
  "emptyDb = \<lparr>users = Map.empty, rides = [], weeklyStats = [], flags = [], adminLogs = []\<rparr>"

text \<open>
  Modelled from the spec: the defaults of the user schema are not among the source files.
  A user who has no ride yet has every sum at 0 and every best effort null.
\<close>

definition newUser :: user where
  "newUser =
     \<lparr>totalDistance = 0, distanceThisYear = 0, totalCoins = 0, longestRideDistance = 0,
      longestRideTime = 0, maxElevationGained = 0,
      best10kmTime = None, best20kmTime = None, best25kmTime = None,
      best50kmTime = None, best75kmTime = None, best100kmTime = None\<rparr>"

text \<open>
  The week of an instant in local time: the day number of its Monday, the local times
  Monday 00:00:00.000 and Sunday 23:59:59.999, the Monday at the instant's own time of
  day, and the local day on which the zone places a local time \<open>x\<close> (the day of a
  skipped time is the day of the time the clock shows instead).
\<close>

definition weekMonday :: "zone \<Rightarrow> int \<Rightarrow> int" where
  "weekMonday z t = Day (LocalTime z t) - (WeekDay (LocalTime z t) + 6) mod 7"

definition mondayStart :: "zone \<Rightarrow> int \<Rightarrow> int" where
  "mondayStart z t = weekMonday z t * msPerDay"

definition mondaySameTime :: "zone \<Rightarrow> int \<Rightarrow> int" where
  "mondaySameTime z t = weekMonday z t * msPerDay + TimeWithinDay (LocalTime z t)"

definition sundayEnd :: "zone \<Rightarrow> int \<Rightarrow> int" where
  "sundayEnd z t = (weekMonday z t + 6) * msPerDay + MakeTime 23 59 59 999"

definition localDay :: "zone \<Rightarrow> int \<Rightarrow> int" where
  "localDay z x = Day (LocalTime z (UTC z x))"

text \<open>
  The two local times that \<open>getWeekBounds\<close> sets with \<^verbatim>\<open>setDate\<close> stay on their days:
  the Monday at the instant's time of day is placed on the Monday, and six days after the
  local reading of the week's start is placed on the Sunday.
\<close>

definition setDate_keeps_days :: "zone \<Rightarrow> int \<Rightarrow> bool" where
  "setDate_keeps_days z t =
     (localDay z (mondaySameTime z t) = weekMonday z t
      \<and> localDay z (LocalTime z (UTC z (mondayStart z t)) + 6 * msPerDay) = weekMonday z t + 6)"

text \<open>
  The ISO week-year of a date: the calendar year of the Thursday of its Monday to
  Sunday week.
\<close>

definition iso_week_year :: "zone \<Rightarrow> int \<Rightarrow> int" where
  "iso_week_year z t =
     (let day = Day (LocalTime z t);
          isoWeekDay = (day + 3) mod 7
      in YearFromDay (day - isoWeekDay + 3))"

section \<open>Example data\<close>

text \<open>
  The ride of the specification's end-to-end example, created on Wednesday 2025-01-01 at
  noon UTC by user 1, who has just registered; and two more dates: Monday 2024-12-30
  and Wednesday 2024-01-03, both at noon UTC.
\<close>

definition exNow :: int where
  "exNow = 1735732800000"

definition dec30 :: int where
  "dec30 = 1735560000000"

definition jan3 :: int where
  "jan3 = 1704283200000"

text \<open>
  Two zones with daylight saving, each with the rules of one year (standard time outside
  it): America/New\_York in 2025, where daylight saving time runs from 2025-03-09 07:00 UTC
  to 2025-11-02 06:00 UTC, and Asia/Tehran in 2020, where it runs from 2020-03-20 20:30 UTC
  to 2020-09-20 19:30 UTC, so that the hour from 23:00 of Sunday 2020-09-20 is repeated.
  The instants are Wednesday 2025-03-05 17:00 UTC and Sunday 2020-09-20 20:00 UTC, which
  is 23:30 in Tehran for the second time.
\<close>

definition newYork2025 :: zone where
  "newYork2025 =
     \<lparr>utcOffset = (\<lambda>t. if 1741503600000 \<le> t \<and> t < 1762063200000
                        then - 14400000 else - 18000000),
      localOffset = (\<lambda>x. if 1741489200000 \<le> x \<and> x < 1762048800000
                          then - 14400000 else - 18000000)\<rparr>"

definition tehran2020 :: zone where
  "tehran2020 =
     \<lparr>utcOffset = (\<lambda>t. if 1584736200000 \<le> t \<and> t < 1600630200000
                        then 16200000 else 12600000),
      localOffset = (\<lambda>x. if 1584752400000 \<le> x \<and> x < 1600646400000
                          then 16200000 else 12600000)\<rparr>"

definition nyInstant :: int where
  "nyInstant = 1741194000000"

definition tehranInstant :: int where
  "tehranInstant = 1600632000000"

definition exBody :: rideBody where
  "exBody = \<lparr>reqDistance = 20, reqElapsedTime = 3000, reqMovingTime = 2880,
             reqAverageSpeed = 25, reqMaxSpeed = 40, reqElevationGained = 150\<rparr>"

definition exRide :: ride where
  "exRide = \<lparr>rideId = 1, userId = 1, distance = 20, elapsedTime = 3000, movingTime = 2880,
             averageSpeed = 25, maxSpeed = 40, elevationGained = 150, activityDate = exNow,
             coinsEarned = 250\<rparr>"

definition exDb :: db where
  "exDb = emptyDb\<lparr>users := [1 \<mapsto> newUser]\<rparr>"

text \<open>
  The user and the weekly aggregate after the example ride went through
  \<open>updateUserStats\<close> and \<open>updateWeeklyStats\<close>, a database that holds them with a
  pending flag on the ride, and a ride history: an older ride of user 1 and a ride of
  user 2.
\<close>

definition exUser :: user where
  "exUser = newUser\<lparr>totalDistance := 20, distanceThisYear := 20, totalCoins := 250,
                    longestRideDistance := 20, longestRideTime := 2880,
                    maxElevationGained := 150,
                    best10kmTime := Some (Fin 1440), best20kmTime := Some (Fin 2880)\<rparr>"

definition exWeek :: weeklyStat where
  "exWeek = \<lparr>wsUserId = 1, year = 2025, weekNumber = 1, wsTotalDistance = 20, totalRides = 1,
             wsTotalCoins = 250, totalMovingTime = 2880, wsAverageSpeed = Fin 25,
             weekStartDate = 1735516800000, weekEndDate = 1736121599999\<rparr>"

definition exStored :: db where
  "exStored = \<lparr>users = [1 \<mapsto> exUser], rides = [exRide], weeklyStats = [exWeek],
               flags = [\<lparr>flagId = 7, flagRideId = 1, status = pending\<rparr>], adminLogs = []\<rparr>"

definition exOld :: ride where
  "exOld = \<lparr>rideId = 2, userId = 1, distance = 50, elapsedTime = 8000, movingTime = 7200,
            averageSpeed = 25, maxSpeed = 45, elevationGained = 300, activityDate = jan3,
            coinsEarned = 625\<rparr>"

definition exOther :: ride where
  "exOther = \<lparr>rideId = 3, userId = 2, distance = 100, elapsedTime = 13000, movingTime = 12000,
              averageSpeed = 30, maxSpeed = 50, elevationGained = 900, activityDate = dec30,
              coinsEarned = 1500\<rparr>"

definition exHistory :: db where
  "exHistory = \<lparr>users = [1 \<mapsto> exUser], rides = [exRide, exOther, exOld], weeklyStats = [],
                flags = [], adminLogs = []\<rparr>"

section \<open>Rounding and monotonicity of the coins\<close>

lemma calculateCoins_mono:
  assumes "d * s \<le> d' * s'"
  shows "calculateCoins d s \<le> calculateCoins d' s'"
proof -
  from assms have "d * s / 2 + 1 / 2 \<le> d' * s' / 2 + 1 / 2" by simp
  then show ?thesis unfolding calculateCoins_def Math_round_def by (rule floor_mono)
qed

text \<open>
  C2. For a distance and an average speed that are not negative, the coins are
  \<open>d * s / 2\<close> rounded to the nearest integer with a tie going away from zero
  (the tie \<open>0.5\<close> gives 1, the tie \<open>2.5\<close> gives 3), and they do not decrease when
  the distance or the speed grows.
\<close>

theorem calculateCoins_round_monotone:
  assumes "0 \<le> d" and "0 \<le> s"
  shows "calculateCoins d s = round_half_away_from_zero (d * s / 2)
       \<and> (\<forall>d'. d \<le> d' \<longrightarrow> calculateCoins d s \<le> calculateCoins d' s)
       \<and> (\<forall>s'. s \<le> s' \<longrightarrow> calculateCoins d s \<le> calculateCoins d s')
       \<and> calculateCoins 1 1 = 1 \<and> calculateCoins 1 5 = 3"
proof -
  from assms have nn: "0 \<le> d * s / 2" by simp
  then have eq: "calculateCoins d s = round_half_away_from_zero (d * s / 2)"
    by (simp add: calculateCoins_def Math_round_def round_half_away_from_zero_def)
  have md: "calculateCoins d s \<le> calculateCoins d' s" if "d \<le> d'" for d'
    using that assms by (intro calculateCoins_mono mult_right_mono)
  have ms: "calculateCoins d s \<le> calculateCoins d s'" if "s \<le> s'" for s'
    using that assms by (intro calculateCoins_mono mult_left_mono)
  have t1: "calculateCoins 1 1 = 1"
    by (simp add: calculateCoins_def Math_round_def)
  have t2: "calculateCoins 1 5 = 3"
  proof -
    have "\<lfloor>(3::real)\<rfloor> = 3" by simp
    then show ?thesis by (simp add: calculateCoins_def Math_round_def)
  qed
  from eq md ms t1 t2 show ?thesis by blast
qed

theorem calculateCoins_round_monotone_witness:
  "(0::real) \<le> 20 \<and> (0::real) \<le> 25
   \<and> calculateCoins 20 25 = round_half_away_from_zero (20 * 25 / 2)
   \<and> calculateCoins 20 25 = 250
   \<and> calculateCoins 20 25 \<le> calculateCoins 21 25"
proof -
  have h1: "(0::real) \<le> 20" and h2: "(0::real) \<le> 25" by simp_all
  have v: "calculateCoins 20 25 = 250"
    by (simp add: calculateCoins_def Math_round_def)
  from calculateCoins_round_monotone [OF h1 h2] v show ?thesis by simp
qed

section \<open>Negative input\<close>

lemma calculateCoins_negative_iff: "calculateCoins d s < 0 \<longleftrightarrow> d * s < - 1"
proof -
  have "calculateCoins d s < 0 \<longleftrightarrow> d * s / 2 + 1 / 2 < 0"
    by (simp add: calculateCoins_def Math_round_def floor_less_iff)
  also have "\<dots> \<longleftrightarrow> d * s < - 1" by (auto simp: field_simps)
  finally show ?thesis .
qed

lemma createRide_rejects:
  assumes "reqDistance b < 0 \<or> reqAverageSpeed b < 0 \<or> reqMovingTime b < 0"
  shows "createRide now rid uid b st = (500, st)"
  using assms by (auto simp: createRide_def Ride_save_def Ride_valid_def Let_def)

lemma createRide_frame:
  "weeklyStats (snd (createRide now rid uid b st)) = weeklyStats st
   \<and> map_option (\<lambda>u. u\<lparr>totalCoins := 0\<rparr>) (users (snd (createRide now rid uid b st)) v)
       = map_option (\<lambda>u. u\<lparr>totalCoins := 0\<rparr>) (users st v)"
  by (simp add: createRide_def Ride_save_def Let_def inc_totalCoins_def split: option.split)

text \<open>
  C9 (as amended). The coin calculation has no error path: for every distance and speed
  it returns a number, and the number is negative exactly when \<open>d * s < - 1\<close>. A negative
  value is kept out of the database by the ride schema instead: \<open>createRide\<close> with a
  negative distance, average speed or moving time answers 500 and leaves the database as
  it was.
\<close>

theorem calculateCoins_has_no_error_path:
  "(calculateCoins d s < 0 \<longleftrightarrow> d * s < - 1)
   \<and> (reqDistance b < 0 \<or> reqAverageSpeed b < 0 \<or> reqMovingTime b < 0
        \<longrightarrow> createRide now rid uid b st = (500, st))"
  using calculateCoins_negative_iff [of d s] createRide_rejects [of b now rid uid st]
  by blast

theorem calculateCoins_has_no_error_path_witness:
  "(- 10) * 5 < (- 1 :: real) \<and> calculateCoins (- 10) 5 < 0
   \<and> reqDistance (exBody\<lparr>reqDistance := - 10\<rparr>) < 0
   \<and> createRide exNow 1 1 (exBody\<lparr>reqDistance := - 10\<rparr>) exDb = (500, exDb)"
proof -
  have h1: "(- 10) * 5 < (- 1 :: real)" by simp
  have h2: "reqDistance (exBody\<lparr>reqDistance := - 10\<rparr>) < 0" by simp
  from calculateCoins_has_no_error_path [of "- 10" 5 "exBody\<lparr>reqDistance := - 10\<rparr>" exNow 1 1 exDb]
    h1 h2
  show ?thesis by blast
qed

theorem calculateCoins_negative_counterexample:
  "calculateCoins (- 10) 5 = - 25 \<and> calculateCoins (- 10) 5 < 0"
  by code_simp

section \<open>The calendar\<close>

lemma div_succ:
  fixes a k :: int
  assumes "0 < k"
  shows "(a + 1) div k = a div k + (if k dvd a + 1 then 1 else 0)"
proof (cases "k dvd a + 1")
  case True
  then obtain q where q: "a + 1 = k * q" by (auto simp: dvd_def)
  then have a: "a = k * (q - 1) + (k - 1)" by (simp add: algebra_simps)
  have "a div k = q - 1"
    by (subst a) (use assms in simp)
  moreover have "(a + 1) div k = q" using q assms by simp
  ultimately show ?thesis using True by simp
next
  case False
  have m: "0 \<le> a mod k" "a mod k < k" using assms by simp_all
  have "a mod k + 1 \<noteq> k"
  proof
    assume "a mod k + 1 = k"
    moreover have "a = k * (a div k) + a mod k" by simp
    ultimately have "a + 1 = k * (a div k) + k" by linarith
    then have "a + 1 = k * (a div k + 1)" by (simp add: algebra_simps)
    then show False using False by (metis dvd_triv_left)
  qed
  with m have lt: "a mod k + 1 < k" by linarith
  have "a + 1 = (a mod k + 1) + k * (a div k)" by simp
  then have "(a + 1) div k = ((a mod k + 1) + k * (a div k)) div k" by simp
  also have "\<dots> = (a mod k + 1) div k + a div k"
    using assms by (subst div_mult_self2) simp_all
  also have "(a mod k + 1) div k = 0"
    using m lt by simp
  finally show ?thesis using False by simp
qed

lemma DayFromYear_step: "DayFromYear (y + 1) = DayFromYear y + DaysInYear y"
proof -
  have sh: "k dvd c \<Longrightarrow> k dvd y - c \<longleftrightarrow> k dvd y" for k c :: int
    by (simp add: dvd_diff_left_iff)
  have e4: "(y + 1 - 1969) div 4 = (y - 1969) div 4 + (if 4 dvd y then 1 else 0)"
    using div_succ [of 4 "y - 1969"] sh [of 4 1968] by (simp add: algebra_simps)
  have e100: "(y + 1 - 1901) div 100 = (y - 1901) div 100 + (if 100 dvd y then 1 else 0)"
    using div_succ [of 100 "y - 1901"] sh [of 100 1900] by (simp add: algebra_simps)
  have e400: "(y + 1 - 1601) div 400 = (y - 1601) div 400 + (if 400 dvd y then 1 else 0)"
    using div_succ [of 400 "y - 1601"] sh [of 400 1600] by (simp add: algebra_simps)
  have i1: "100 dvd y \<Longrightarrow> 4 dvd y"
    by (rule dvd_trans [of 4 100]) simp_all
  have i2: "400 dvd y \<Longrightarrow> 100 dvd y"
    by (rule dvd_trans [of 100 400]) simp_all
  have d: "DaysInYear y =
      365 + (if 4 dvd y then 1 else 0) - (if 100 dvd y then 1 else 0) + (if 400 dvd y then 1 else 0)"
    using i1 i2 by (auto simp: DaysInYear_def mod_eq_0_iff_dvd)
  show ?thesis
    unfolding DayFromYear_def d e4 e100 e400 by (simp add: algebra_simps)
qed

lemma DaysInYear_bounds: "365 \<le> DaysInYear y" "DaysInYear y \<le> 366"
  by (simp_all add: DaysInYear_def)

lemma DayFromYear_next: "DayFromYear y + 365 \<le> DayFromYear (y + 1)"
  using DayFromYear_step [of y] DaysInYear_bounds(1) [of y] by linarith

lemma DayFromYear_add: "DayFromYear y + 365 * int n \<le> DayFromYear (y + int n)"
proof (induction n)
  case 0
  show ?case by simp
next
  case (Suc n)
  have "DayFromYear (y + int n) + 365 \<le> DayFromYear (y + int n + 1)"
    by (rule DayFromYear_next)
  with Suc show ?case by (simp add: algebra_simps)
qed

lemma DayFromYear_add_le: "DayFromYear (y + int n) \<le> DayFromYear y + 366 * int n"
proof (induction n)
  case 0
  show ?case by simp
next
  case (Suc n)
  have "DayFromYear (y + int n + 1) = DayFromYear (y + int n) + DaysInYear (y + int n)"
    by (rule DayFromYear_step)
  with Suc DaysInYear_bounds(2) [of "y + int n"] show ?case by (simp add: algebra_simps)
qed

lemma DayFromYear_mono: "y \<le> y' \<Longrightarrow> DayFromYear y + 365 * (y' - y) \<le> DayFromYear y'"
  using DayFromYear_add [of y "nat (y' - y)"] by simp

lemma DayFromYear_less: "y < y' \<Longrightarrow> DayFromYear y < DayFromYear y'"
  using DayFromYear_mono [of y y'] by simp

lemma DayFromYear_1970: "DayFromYear 1970 = 0"
  by (simp add: DayFromYear_def)

lemma mult_div_le_int:
  fixes d k :: int
  assumes "0 < k"
  shows "k * (d div k) \<le> d"
proof -
  have "k * (d div k) = d - d mod k" by (simp add: minus_mod_eq_mult_div)
  moreover have "0 \<le> d mod k" using assms by simp
  ultimately show ?thesis by simp
qed

lemma DayFromYear_start_le:
  "DayFromYear (1970 + (if 0 \<le> d then d div 366 else d div 365)) \<le> d"
proof (cases "0 \<le> d")
  case True
  then have k: "0 \<le> d div 366" by simp
  have "DayFromYear (1970 + int (nat (d div 366))) \<le> DayFromYear 1970 + 366 * int (nat (d div 366))"
    by (rule DayFromYear_add_le)
  with k have "DayFromYear (1970 + d div 366) \<le> 366 * (d div 366)"
    by (simp add: DayFromYear_1970)
  also have "\<dots> \<le> d" by (rule mult_div_le_int) simp
  finally show ?thesis using True by simp
next
  case False
  then have k: "d div 365 \<le> 0" by (simp add: div_nonpos_pos_le0)
  have "DayFromYear (1970 + d div 365) + 365 * (1970 - (1970 + d div 365)) \<le> DayFromYear 1970"
    by (rule DayFromYear_mono) (use k in simp)
  then have "DayFromYear (1970 + d div 365) \<le> 365 * (d div 365)"
    by (simp add: DayFromYear_1970)
  also have "\<dots> \<le> d" by (rule mult_div_le_int) simp
  finally show ?thesis using False by simp
qed

lemma year_search_lower: "DayFromYear y \<le> d \<Longrightarrow> DayFromYear (year_search y d) \<le> d"
proof (induction y d rule: year_search.induct)
  case (1 y d)
  then show ?case by (subst year_search.simps) simp
qed

lemma year_search_upper: "d < DayFromYear (year_search y d + 1)"
proof (induction y d rule: year_search.induct)
  case (1 y d)
  then show ?case by (subst year_search.simps) simp
qed

lemma YearFromDay_lower: "DayFromYear (YearFromDay d) \<le> d"
  unfolding YearFromDay_def by (rule year_search_lower [OF DayFromYear_start_le])

lemma YearFromDay_upper: "d < DayFromYear (YearFromDay d + 1)"
  unfolding YearFromDay_def by (rule year_search_upper)

lemma YearFromDay_unique:
  assumes "DayFromYear y \<le> d" and "d < DayFromYear (y + 1)"
  shows "YearFromDay d = y"
proof (rule antisym)
  show "YearFromDay d \<le> y"
  proof (rule ccontr)
    assume "\<not> YearFromDay d \<le> y"
    then have "y + 1 \<le> YearFromDay d" by simp
    then have "DayFromYear (y + 1) \<le> DayFromYear (YearFromDay d)"
      using DayFromYear_mono [of "y + 1" "YearFromDay d"] by simp
    with YearFromDay_lower [of d] assms(2) show False by linarith
  qed
  show "y \<le> YearFromDay d"
  proof (rule ccontr)
    assume "\<not> y \<le> YearFromDay d"
    then have "YearFromDay d + 1 \<le> y" by simp
    then have "DayFromYear (YearFromDay d + 1) \<le> DayFromYear y"
      using DayFromYear_mono [of "YearFromDay d + 1" y] by simp
    with YearFromDay_upper [of d] assms(1) show False by linarith
  qed
qed

lemma YearFromDay_mono: "d \<le> d' \<Longrightarrow> YearFromDay d \<le> YearFromDay d'"
proof (rule ccontr)
  assume le: "d \<le> d'" and "\<not> YearFromDay d \<le> YearFromDay d'"
  then have "YearFromDay d' + 1 \<le> YearFromDay d" by simp
  then have "DayFromYear (YearFromDay d' + 1) \<le> DayFromYear (YearFromDay d)"
    using DayFromYear_mono [of "YearFromDay d' + 1" "YearFromDay d"] by simp
  with YearFromDay_upper [of d'] YearFromDay_lower [of d] le show False by linarith
qed

lemma YearFromDay_shift_up:
  assumes "0 \<le> k" and "k \<le> 365"
  shows "YearFromDay (d + k) \<le> YearFromDay d + 1"
proof (rule ccontr)
  assume "\<not> YearFromDay (d + k) \<le> YearFromDay d + 1"
  then have "YearFromDay d + 2 \<le> YearFromDay (d + k)" by simp
  then have "DayFromYear (YearFromDay d + 2) \<le> DayFromYear (YearFromDay (d + k))"
    using DayFromYear_mono [of "YearFromDay d + 2" "YearFromDay (d + k)"] by simp
  moreover have "DayFromYear (YearFromDay d + 1) + 365 \<le> DayFromYear (YearFromDay d + 1 + 1)"
    by (rule DayFromYear_next)
  ultimately show False
    using YearFromDay_upper [of d] YearFromDay_lower [of "d + k"] assms by (simp add: algebra_simps)
qed

lemma YearFromDay_shift_down:
  assumes "0 \<le> k" and "k \<le> 365"
  shows "YearFromDay d - 1 \<le> YearFromDay (d - k)"
  using YearFromDay_shift_up [OF assms, of "d - k"] by simp

lemma msPerDay_pos: "0 < msPerDay"
  by (simp add: msPerDay_def)

lemma Day_TimeWithinDay: "Day t * msPerDay + TimeWithinDay t = t"
  by (simp add: Day_def TimeWithinDay_def)

lemma TimeWithinDay_range: "0 \<le> TimeWithinDay t" "TimeWithinDay t < msPerDay"
  using msPerDay_pos by (simp_all add: TimeWithinDay_def)

lemma Day_MakeDate:
  assumes "0 \<le> tm" and "tm < msPerDay"
  shows "Day (MakeDate d tm) = d"
proof -
  have "(tm + d * msPerDay) div msPerDay = tm div msPerDay + d"
    using msPerDay_pos by (subst div_mult_self1) simp_all
  moreover have "tm div msPerDay = 0" using assms by simp
  ultimately show ?thesis by (simp add: Day_def MakeDate_def add.commute)
qed

lemma MakeDate_shift: "MakeDate (Day t + k) (TimeWithinDay t) = t + k * msPerDay"
  using Day_TimeWithinDay [of t] by (simp add: MakeDate_def algebra_simps)

lemma Day_shift: "Day (t + k * msPerDay) = Day t + k"
  using msPerDay_pos by (simp add: Day_def)

lemma month_of_range: "0 \<le> month_of d l" "month_of d l \<le> 11"
  by (simp_all add: month_of_def)

lemma MakeDay_own_month:
  "MakeDay (YearFromTime t) (MonthFromTime t) dt = Day t + (dt - DateFromTime t)"
proof -
  let ?m = "MonthFromTime t"
  have r: "0 \<le> ?m" "?m \<le> 11" by (simp_all add: MonthFromTime_def month_of_range)
  then have "?m div 12 = 0" "?m mod 12 = ?m" by simp_all
  then show ?thesis
    by (simp add: MakeDay_def DateFromTime_def DayWithinYear_def InLeapYear_def)
qed

lemma setUTCDate_shift: "setUTCDate t dt = t + (dt - DateFromTime t) * msPerDay"
proof -
  have "setUTCDate t dt = MakeDate (Day t + (dt - DateFromTime t)) (TimeWithinDay t)"
    by (simp add: setUTCDate_def MakeDay_own_month)
  then show ?thesis by (simp only: MakeDate_shift)
qed

lemma setDate_shift:
  "setDate z t dt = UTC z (LocalTime z t + (dt - getDate z t) * msPerDay)"
proof -
  let ?lt = "LocalTime z t"
  have "setDate z t dt = UTC z (MakeDate (Day ?lt + (dt - DateFromTime ?lt)) (TimeWithinDay ?lt))"
    by (simp add: setDate_def MakeDay_own_month)
  then show ?thesis by (simp only: MakeDate_shift getDate_def)
qed

lemma WeekDay_range: "0 \<le> WeekDay t" "WeekDay t \<le> 6"
  by (simp_all add: WeekDay_def)

lemma setHours_eq:
  "setHours z t h m s ms = UTC z (Day (LocalTime z t) * msPerDay + MakeTime h m s ms)"
  by (simp add: setHours_def MakeDate_def)

lemma getWeekBounds_eq:
  assumes "setDate_keeps_days z t"
  shows "getWeekBounds z t = (UTC z (mondayStart z t), UTC z (sundayEnd z t))"
proof -
  define lt where "lt = LocalTime z t"
  define s where "s = (WeekDay lt + 6) mod 7"
  define M where "M = weekMonday z t"
  define day where "day = getDay z t"
  define t1 where "t1 = setDate z t (getDate z t - day + (if day = 0 then - 6 else 1))"
  define ws where "ws = setHours z t1 0 0 0 0"
  define t2 where "t2 = setDate z ws (getDate z ws + 6)"
  define we where "we = setHours z t2 23 59 59 999"
  have M: "M = Day lt - s" by (simp add: M_def weekMonday_def lt_def s_def)
  have h1: "localDay z (mondaySameTime z t) = M"
    and h2: "localDay z (LocalTime z (UTC z (mondayStart z t)) + 6 * msPerDay) = M + 6"
    using assms by (simp_all add: setDate_keeps_days_def M_def)
  have k: "(if day = 0 then - 6 else 1) - day = - s"
    using WeekDay_range [of lt] unfolding day_def s_def getDay_def lt_def by presburger
  have "getDate z t - day + (if day = 0 then - 6 else 1) - getDate z t = - s"
    using k by linarith
  then have "t1 = UTC z (lt + (- s) * msPerDay)"
    unfolding t1_def lt_def by (simp only: setDate_shift)
  moreover have "lt + (- s) * msPerDay = mondaySameTime z t"
    using Day_TimeWithinDay [of lt]
    by (simp add: mondaySameTime_def M_def [symmetric] M lt_def [symmetric] algebra_simps)
  ultimately have t1: "t1 = UTC z (mondaySameTime z t)" by simp
  have "Day (LocalTime z t1) = M"
    using h1 by (simp add: t1 localDay_def)
  then have ws: "ws = UTC z (mondayStart z t)"
    by (simp add: ws_def setHours_eq MakeTime_def mondayStart_def M_def)
  have "t2 = UTC z (LocalTime z ws + 6 * msPerDay)"
    unfolding t2_def by (simp add: setDate_shift)
  then have "Day (LocalTime z t2) = M + 6"
    using h2 by (simp add: ws localDay_def)
  then have we: "we = UTC z (sundayEnd z t)"
    by (simp add: we_def setHours_eq sundayEnd_def M_def)
  have "getWeekBounds z t = (ws, we)"
    by (simp add: getWeekBounds_def Let_def ws_def we_def t2_def t1_def day_def)
  then show ?thesis by (simp only: ws we)
qed

lemma local_time_in_week:
  "mondayStart z t \<le> LocalTime z t" "LocalTime z t \<le> sundayEnd z t"
proof -
  define lt where "lt = LocalTime z t"
  define s where "s = (WeekDay lt + 6) mod 7"
  have s: "0 \<le> s" "s \<le> 6" unfolding s_def by simp_all
  have M: "weekMonday z t = Day lt - s" by (simp add: weekMonday_def lt_def s_def)
  have lt: "lt = Day lt * msPerDay + TimeWithinDay lt"
    using Day_TimeWithinDay [of lt] by simp
  have m: "0 \<le> s * msPerDay" "s * msPerDay \<le> 6 * msPerDay"
    using s msPerDay_pos by simp_all
  have r: "0 \<le> TimeWithinDay lt" "TimeWithinDay lt \<le> 86399999"
    using TimeWithinDay_range [of lt] by (simp_all add: msPerDay_def)
  have "(Day lt - s) * msPerDay \<le> Day lt * msPerDay + TimeWithinDay lt"
    using m r by (simp add: algebra_simps)
  then show "mondayStart z t \<le> LocalTime z t"
    unfolding mondayStart_def M lt_def [symmetric] using lt by simp
  have "Day lt * msPerDay + TimeWithinDay lt \<le> (Day lt - s + 6) * msPerDay + 86399999"
    using m r by (simp add: algebra_simps)
  then show "LocalTime z t \<le> sundayEnd z t"
    unfolding sundayEnd_def M lt_def [symmetric] MakeTime_def using lt by simp
qed

lemma getWeekBounds_span:
  assumes "setDate_keeps_days z t"
  shows "snd (getWeekBounds z t) - fst (getWeekBounds z t)
           = 6 * msPerDay + MakeTime 23 59 59 999
             - (localOffset z (sundayEnd z t) - localOffset z (mondayStart z t))"
  by (simp add: getWeekBounds_eq [OF assms] UTC_def sundayEnd_def mondayStart_def algebra_simps)

lemma getWeekBounds_contains:
  assumes "setDate_keeps_days z t"
    and "\<forall>u. u < UTC z (mondayStart z t) \<longrightarrow> LocalTime z u < mondayStart z t"
    and "\<forall>u. UTC z (sundayEnd z t) < u \<longrightarrow> sundayEnd z t < LocalTime z u"
  shows "fst (getWeekBounds z t) \<le> t" and "t \<le> snd (getWeekBounds z t)"
proof -
  show "fst (getWeekBounds z t) \<le> t"
  proof (rule ccontr)
    assume "\<not> fst (getWeekBounds z t) \<le> t"
    then have "t < UTC z (mondayStart z t)" by (simp add: getWeekBounds_eq [OF assms(1)])
    with assms(2) have "LocalTime z t < mondayStart z t" by blast
    with local_time_in_week(1) [of z t] show False by simp
  qed
  show "t \<le> snd (getWeekBounds z t)"
  proof (rule ccontr)
    assume "\<not> t \<le> snd (getWeekBounds z t)"
    then have "UTC z (sundayEnd z t) < t" by (simp add: getWeekBounds_eq [OF assms(1)])
    with assms(3) have "sundayEnd z t < LocalTime z t" by blast
    with local_time_in_week(2) [of z t] show False by simp
  qed
qed

lemma LocalTime_fixedZone: "LocalTime (fixedZone a) t = t + a"
  by (simp add: LocalTime_def fixedZone_def)

lemma UTC_fixedZone: "UTC (fixedZone a) x = x - a"
  by (simp add: UTC_def fixedZone_def)

lemma localOffset_fixedZone: "localOffset (fixedZone a) x = a"
  by (simp add: fixedZone_def)

lemma fixedZone_keeps_days: "setDate_keeps_days (fixedZone a) t"
proof -
  let ?z = "fixedZone a"
  have r: "0 \<le> TimeWithinDay (LocalTime ?z t)" "TimeWithinDay (LocalTime ?z t) < msPerDay"
    by (rule TimeWithinDay_range)+
  have "Day (MakeDate (weekMonday ?z t) (TimeWithinDay (LocalTime ?z t))) = weekMonday ?z t"
    by (rule Day_MakeDate [OF r])
  then have a: "localDay ?z (mondaySameTime ?z t) = weekMonday ?z t"
    by (simp add: localDay_def mondaySameTime_def LocalTime_fixedZone UTC_fixedZone MakeDate_def)
  have "Day (MakeDate (weekMonday ?z t + 6) 0) = weekMonday ?z t + 6"
    using msPerDay_pos by (intro Day_MakeDate) simp_all
  then have b: "localDay ?z (LocalTime ?z (UTC ?z (mondayStart ?z t)) + 6 * msPerDay)
      = weekMonday ?z t + 6"
    by (simp add: localDay_def mondayStart_def LocalTime_fixedZone UTC_fixedZone MakeDate_def
          algebra_simps)
  from a b show ?thesis by (simp add: setDate_keeps_days_def)
qed

lemma getWeekBounds_fixedZone:
  "fst (getWeekBounds (fixedZone a) t) \<le> t" "t \<le> snd (getWeekBounds (fixedZone a) t)"
  "snd (getWeekBounds (fixedZone a) t) - fst (getWeekBounds (fixedZone a) t)
     = 6 * msPerDay + MakeTime 23 59 59 999"
proof -
  let ?z = "fixedZone a"
  have o1: "\<forall>u. u < UTC ?z (mondayStart ?z t) \<longrightarrow> LocalTime ?z u < mondayStart ?z t"
    by (simp add: LocalTime_fixedZone UTC_fixedZone)
  have o2: "\<forall>u. UTC ?z (sundayEnd ?z t) < u \<longrightarrow> sundayEnd ?z t < LocalTime ?z u"
    by (simp add: LocalTime_fixedZone UTC_fixedZone)
  show "fst (getWeekBounds ?z t) \<le> t"
    by (rule getWeekBounds_contains(1) [OF fixedZone_keeps_days o1 o2])
  show "t \<le> snd (getWeekBounds ?z t)"
    by (rule getWeekBounds_contains(2) [OF fixedZone_keeps_days o1 o2])
  show "snd (getWeekBounds ?z t) - fst (getWeekBounds ?z t) = 6 * msPerDay + MakeTime 23 59 59 999"
    by (simp add: getWeekBounds_span [OF fixedZone_keeps_days] localOffset_fixedZone)
qed

lemma DayWithinYear_range: "0 \<le> DayWithinYear t" "DayWithinYear t \<le> 365"
proof -
  let ?y = "YearFromTime t"
  have l: "DayFromYear ?y \<le> Day t" and u: "Day t < DayFromYear (?y + 1)"
    unfolding YearFromTime_def by (rule YearFromDay_lower, rule YearFromDay_upper)
  show "0 \<le> DayWithinYear t" using l by (simp add: DayWithinYear_def)
  have "DayFromYear (?y + 1) \<le> DayFromYear ?y + 366"
    using DayFromYear_step [of ?y] DaysInYear_bounds(2) [of ?y] by linarith
  with u show "DayWithinYear t \<le> 365" by (simp add: DayWithinYear_def)
qed

lemma daysBeforeMonth_le: "0 \<le> d \<Longrightarrow> daysBeforeMonth (month_of d l) l \<le> d"
  by (simp add: month_of_def daysBeforeMonth_def)

lemma daysBeforeMonth_nonneg: "0 \<le> l \<Longrightarrow> 0 \<le> daysBeforeMonth m l"
  by (simp add: daysBeforeMonth_def)

lemma DateFromTime_ge1: "1 \<le> DateFromTime t"
  using daysBeforeMonth_le [OF DayWithinYear_range(1), of t "InLeapYear t"]
  by (simp add: DateFromTime_def MonthFromTime_def)

lemma MakeDay_january: "MakeDay y 0 1 = DayFromYear y"
  by (simp add: MakeDay_def daysBeforeMonth_def)

lemma Date_UTC_day: "Day (Date_UTC y m dt) = MakeDay (if 0 \<le> y \<and> y \<le> 99 then 1900 + y else y) m dt"
  unfolding Date_UTC_def MakeTime_def using msPerDay_pos by (intro Day_MakeDate) simp_all

lemma Date_UTC_eq: "Date_UTC y m dt = MakeDay (if 0 \<le> y \<and> y \<le> 99 then 1900 + y else y) m dt * msPerDay"
  by (simp add: Date_UTC_def MakeTime_def MakeDate_def)

lemma week_ceiling:
  assumes "0 \<le> k" and "k \<le> 365"
  shows "1 \<le> \<lceil>((real_of_int (k * msPerDay) / 86400000) + 1) / 7\<rceil>"
    and "\<lceil>((real_of_int (k * msPerDay) / 86400000) + 1) / 7\<rceil> \<le> 53"
proof -
  have e: "real_of_int (k * msPerDay) / 86400000 = real_of_int k"
    by (simp add: msPerDay_def)
  have "0 < (real_of_int k + 1) / 7" using assms by simp
  then show "1 \<le> \<lceil>((real_of_int (k * msPerDay) / 86400000) + 1) / 7\<rceil>"
    unfolding e by (simp add: one_le_ceiling)
  have "(real_of_int k + 1) / 7 \<le> 53" using assms by simp
  then show "\<lceil>((real_of_int (k * msPerDay) / 86400000) + 1) / 7\<rceil> \<le> 53"
    unfolding e by (simp add: ceiling_le_iff)
qed

text \<open>The day the week number is computed from, and the Thursday of its week.\<close>

lemma getWeekNumber_eq:
  fixes z :: zone and t :: int
  defines "n0 \<equiv> Day (Date_UTC (getFullYear z t) (getMonth z t) (getDate z t))"
  defines "n \<equiv> n0 + 4 - (if (n0 + 4) mod 7 = 0 then 7 else (n0 + 4) mod 7)"
  assumes "\<not> (0 \<le> YearFromDay n \<and> YearFromDay n \<le> 99)"
  shows "getWeekNumber z t =
           \<lceil>((real_of_int ((n - DayFromYear (YearFromDay n)) * msPerDay) / 86400000) + 1) / 7\<rceil>"
proof -
  define d0 where "d0 = Date_UTC (getFullYear z t) (getMonth z t) (getDate z t)"
  define dayNum where "dayNum = (if WeekDay d0 = 0 then 7 else WeekDay d0)"
  define d where "d = setUTCDate d0 (DateFromTime d0 + 4 - dayNum)"
  define yearStart where "yearStart = Date_UTC (YearFromTime d) 0 1"
  have d0: "d0 = n0 * msPerDay"
    unfolding d0_def n0_def Date_UTC_day by (rule Date_UTC_eq)
  have dn: "dayNum = (if (n0 + 4) mod 7 = 0 then 7 else (n0 + 4) mod 7)"
    by (simp add: dayNum_def WeekDay_def d0_def n0_def)
  have d: "d = d0 + (4 - dayNum) * msPerDay"
    unfolding d_def setUTCDate_shift by simp
  then have d': "d = n * msPerDay"
    unfolding d0 n_def dn [symmetric] by (simp add: algebra_simps)
  have "Day d = n"
    unfolding d' Day_def using msPerDay_pos by simp
  then have y: "YearFromTime d = YearFromDay n" by (simp add: YearFromTime_def)
  have "(if 0 \<le> YearFromDay n \<and> YearFromDay n \<le> 99 then 1900 + YearFromDay n else YearFromDay n)
      = YearFromDay n"
    by (rule if_not_P) (rule assms(3))
  then have ys: "yearStart = DayFromYear (YearFromDay n) * msPerDay"
    unfolding yearStart_def y Date_UTC_eq by (simp only: MakeDay_january)
  have "d - yearStart = (n - DayFromYear (YearFromDay n)) * msPerDay"
    unfolding d' ys by (simp add: algebra_simps)
  moreover have "getWeekNumber z t = \<lceil>((real_of_int (d - yearStart) / 86400000) + 1) / 7\<rceil>"
    by (simp add: getWeekNumber_def Let_def d0_def dayNum_def d_def yearStart_def)
  ultimately show ?thesis by simp
qed

lemma DayWithinYear_after_3_january:
  assumes "\<not> (MonthFromTime t = 0 \<and> DateFromTime t \<le> 3)"
  shows "3 \<le> DayWithinYear t"
proof (cases "DayWithinYear t < 31")
  case True
  then have "MonthFromTime t = 0" "DateFromTime t = DayWithinYear t + 1"
    by (simp_all add: MonthFromTime_def DateFromTime_def month_of_def daysBeforeMonth_def)
  with assms show ?thesis by simp
next
  case False
  then show ?thesis by simp
qed

lemma DayFromYear_0: "DayFromYear 0 = - 719528"
  by (simp add: DayFromYear_def)

lemma thursday_year:
  fixes z :: zone and t :: int
  defines "n0 \<equiv> Day (Date_UTC (getFullYear z t) (getMonth z t) (getDate z t))"
  defines "n \<equiv> n0 + 4 - (if (n0 + 4) mod 7 = 0 then 7 else (n0 + 4) mod 7)"
  assumes "\<not> (getFullYear z t = 100 \<and> getMonth z t = 0 \<and> getDate z t \<le> 3)"
  shows "\<not> (0 \<le> YearFromDay n \<and> YearFromDay n \<le> 99)"
proof -
  define lt where "lt = LocalTime z t"
  define Y where "Y = YearFromTime lt"
  define j where "j = 4 - (if (n0 + 4) mod 7 = 0 then 7 else (n0 + 4) mod 7)"
  have j: "- 3 \<le> j" "j \<le> 3" unfolding j_def by presburger+
  have n: "n = n0 + j" by (simp add: n_def j_def)
  have Y: "getFullYear z t = Y" by (simp add: getFullYear_def Y_def lt_def)
  show ?thesis
  proof (cases "0 \<le> Y \<and> Y \<le> 99")
    case True
    define l where "l = (if DaysInYear (1900 + Y) = 366 then 1 else 0 :: int)"
    have l: "0 \<le> l" by (simp add: l_def)
    have "n0 = MakeDay (1900 + Y) (MonthFromTime lt) (DateFromTime lt)"
      unfolding n0_def Date_UTC_day using True
      by (simp add: getFullYear_def getMonth_def getDate_def Y_def lt_def)
    also have "\<dots> = DayFromYear (1900 + Y) + daysBeforeMonth (MonthFromTime lt) l
        + DateFromTime lt - 1"
    proof -
      have "0 \<le> MonthFromTime lt" "MonthFromTime lt \<le> 11"
        by (simp_all add: MonthFromTime_def month_of_range)
      then have "MonthFromTime lt div 12 = 0" "MonthFromTime lt mod 12 = MonthFromTime lt"
        by simp_all
      then show ?thesis by (simp add: MakeDay_def l_def)
    qed
    finally have "DayFromYear (1900 + Y) \<le> n0"
      using DateFromTime_ge1 [of lt] daysBeforeMonth_nonneg [OF l, of "MonthFromTime lt"]
      by linarith
    moreover have "DayFromYear 1900 \<le> DayFromYear (1900 + Y)"
      using DayFromYear_mono [of 1900 "1900 + Y"] True by simp
    moreover have "DayFromYear 1899 + 365 \<le> DayFromYear (1899 + 1)"
      by (rule DayFromYear_next)
    ultimately have "DayFromYear 1899 \<le> n" using j n by simp
    then have "YearFromDay (DayFromYear 1899) \<le> YearFromDay n"
      by (rule YearFromDay_mono)
    moreover have "YearFromDay (DayFromYear 1899) = 1899"
      by (rule YearFromDay_unique) (simp_all add: DayFromYear_less)
    ultimately show ?thesis by simp
  next
    case False
    have "(if 0 \<le> Y \<and> Y \<le> 99 then 1900 + Y else Y) = Y"
      by (rule if_not_P) (rule False)
    then have "n0 = MakeDay Y (MonthFromTime lt) (DateFromTime lt)"
      unfolding n0_def Date_UTC_day Y
      by (simp add: getMonth_def getDate_def lt_def)
    then have n0: "n0 = Day lt"
      by (simp add: Y_def MakeDay_own_month)
    have yl: "YearFromDay n0 = Y" by (simp add: n0 Y_def YearFromTime_def)
    have up: "YearFromDay n \<le> Y + 1"
    proof (cases "0 \<le> j")
      case True
      then show ?thesis using YearFromDay_shift_up [of j n0] j yl n by simp
    next
      case False
      then have "YearFromDay n \<le> YearFromDay n0" unfolding n by (intro YearFromDay_mono) simp
      then show ?thesis using yl by simp
    qed
    have lo: "Y - 1 \<le> YearFromDay n"
    proof (cases "0 \<le> j")
      case True
      then have "YearFromDay n0 \<le> YearFromDay n" unfolding n by (intro YearFromDay_mono) simp
      then show ?thesis using yl by simp
    next
      case False
      then show ?thesis using YearFromDay_shift_down [of "- j" n0] j yl n by simp
    qed
    consider "Y \<le> - 2 \<or> 101 \<le> Y" | "Y = - 1" | "Y = 100"
      using False by linarith
    then show ?thesis
    proof cases
      case 1
      with up lo show ?thesis by linarith
    next
      case 2
      have "n0 < DayFromYear (YearFromDay n0 + 1)" by (rule YearFromDay_upper)
      then have "n0 < - 719528" by (simp add: yl 2 DayFromYear_0)
      then have "n < - 719528" unfolding n_def by presburger
      then have lt0: "n < DayFromYear 0" by (simp add: DayFromYear_0)
      have "YearFromDay n < 0"
      proof (rule ccontr)
        assume "\<not> YearFromDay n < 0"
        then have "DayFromYear 0 \<le> DayFromYear (YearFromDay n)"
          using DayFromYear_mono [of 0 "YearFromDay n"] by simp
        with YearFromDay_lower [of n] lt0 show False by simp
      qed
      then show ?thesis by simp
    next
      case 3
      with assms(3) Y have "\<not> (MonthFromTime lt = 0 \<and> DateFromTime lt \<le> 3)"
        by (simp add: getMonth_def getDate_def lt_def)
      then have "3 \<le> DayWithinYear lt" by (rule DayWithinYear_after_3_january)
      then have "DayFromYear 100 + 3 \<le> n0"
        using 3 by (simp add: n0 DayWithinYear_def Y_def)
      then have "DayFromYear 100 \<le> n" using j n by simp
      then have "YearFromDay (DayFromYear 100) \<le> YearFromDay n"
        by (rule YearFromDay_mono)
      moreover have "YearFromDay (DayFromYear 100) = 100"
        by (rule YearFromDay_unique) (simp_all add: DayFromYear_less)
      ultimately show ?thesis by simp
    qed
  qed
qed

lemma getWeekNumber_range:
  assumes "\<not> (getFullYear z t = 100 \<and> getMonth z t = 0 \<and> getDate z t \<le> 3)"
  shows "1 \<le> getWeekNumber z t" and "getWeekNumber z t \<le> 53"
proof -
  define n0 where "n0 = Day (Date_UTC (getFullYear z t) (getMonth z t) (getDate z t))"
  define n where "n = n0 + 4 - (if (n0 + 4) mod 7 = 0 then 7 else (n0 + 4) mod 7)"
  have q: "\<not> (0 \<le> YearFromDay n \<and> YearFromDay n \<le> 99)"
    unfolding n_def n0_def by (rule thursday_year [OF assms])
  have e: "getWeekNumber z t =
      \<lceil>((real_of_int ((n - DayFromYear (YearFromDay n)) * msPerDay) / 86400000) + 1) / 7\<rceil>"
    using q unfolding n_def n0_def by (rule getWeekNumber_eq)
  have k0: "0 \<le> n - DayFromYear (YearFromDay n)"
    using YearFromDay_lower [of n] by simp
  have "DayFromYear (YearFromDay n + 1) \<le> DayFromYear (YearFromDay n) + 366"
    using DayFromYear_step [of "YearFromDay n"] DaysInYear_bounds(2) [of "YearFromDay n"] by linarith
  then have k1: "n - DayFromYear (YearFromDay n) \<le> 365"
    using YearFromDay_upper [of n] by simp
  show "1 \<le> getWeekNumber z t" unfolding e by (rule week_ceiling(1) [OF k0 k1])
  show "getWeekNumber z t \<le> 53" unfolding e by (rule week_ceiling(2) [OF k0 k1])
qed

lemma getWeekNumber_thursday:
  fixes z :: zone and t :: int
  defines "n0 \<equiv> Day (Date_UTC (getFullYear z t) (getMonth z t) (getDate z t))"
  defines "n \<equiv> n0 + 4 - (if (n0 + 4) mod 7 = 0 then 7 else (n0 + 4) mod 7)"
  shows "getWeekNumber z t =
           \<lceil>((real_of_int (n * msPerDay - Date_UTC (YearFromDay n) 0 1) / 86400000) + 1) / 7\<rceil>"
proof -
  define d0 where "d0 = Date_UTC (getFullYear z t) (getMonth z t) (getDate z t)"
  define dayNum where "dayNum = (if WeekDay d0 = 0 then 7 else WeekDay d0)"
  define d where "d = setUTCDate d0 (DateFromTime d0 + 4 - dayNum)"
  define yearStart where "yearStart = Date_UTC (YearFromTime d) 0 1"
  have d0: "d0 = n0 * msPerDay"
    unfolding d0_def n0_def Date_UTC_day by (rule Date_UTC_eq)
  have dn: "dayNum = (if (n0 + 4) mod 7 = 0 then 7 else (n0 + 4) mod 7)"
    by (simp add: dayNum_def WeekDay_def d0_def n0_def)
  have d: "d = d0 + (4 - dayNum) * msPerDay"
    unfolding d_def setUTCDate_shift by simp
  then have d': "d = n * msPerDay"
    unfolding d0 n_def dn [symmetric] by (simp add: algebra_simps)
  have "Day d = n"
    unfolding d' Day_def using msPerDay_pos by simp
  then have y: "YearFromTime (n * msPerDay) = YearFromDay n"
    by (simp add: YearFromTime_def d')
  have "getWeekNumber z t = \<lceil>((real_of_int (d - yearStart) / 86400000) + 1) / 7\<rceil>"
    by (simp add: getWeekNumber_def Let_def d0_def dayNum_def d_def yearStart_def)
  then show ?thesis unfolding yearStart_def d' y .
qed

lemma DayFromYear_100: "DayFromYear 100 = - 683003"
  by (simp add: DayFromYear_def)

lemma getWeekNumber_year_100:
  assumes "getFullYear z t = 100" and "getMonth z t = 0" and "getDate z t \<le> 3"
  shows "getWeekNumber z t = - 99085"
proof -
  define lt where "lt = LocalTime z t"
  define n0 where "n0 = Day (Date_UTC (getFullYear z t) (getMonth z t) (getDate z t))"
  define n where "n = n0 + 4 - (if (n0 + 4) mod 7 = 0 then 7 else (n0 + 4) mod 7)"
  have Y: "YearFromTime lt = 100" and m: "MonthFromTime lt = 0" and dt: "DateFromTime lt \<le> 3"
    using assms by (simp_all add: getFullYear_def getMonth_def getDate_def lt_def)
  have "n0 = MakeDay (YearFromTime lt) (MonthFromTime lt) (DateFromTime lt)"
    unfolding n0_def Date_UTC_day
    by (simp add: getFullYear_def getMonth_def getDate_def lt_def [symmetric] Y)
  then have "n0 = Day lt" by (simp add: MakeDay_own_month)
  moreover have "DayWithinYear lt = DateFromTime lt - 1"
    using m by (simp add: DateFromTime_def daysBeforeMonth_def)
  ultimately have n0: "n0 = - 683004 + DateFromTime lt"
    by (simp add: DayWithinYear_def Y DayFromYear_100)
  have "n = - 683004"
    using DateFromTime_ge1 [of lt] dt unfolding n_def n0 by presburger
  moreover have "YearFromDay (- 683004) = 99"
    by (rule YearFromDay_unique) (simp_all add: DayFromYear_def)
  moreover have "Date_UTC 99 0 1 = 915148800000" by code_simp
  moreover have "\<lceil>((real_of_int (- 683004 * msPerDay - 915148800000) / 86400000) + 1) / 7\<rceil>
      = (- 99085 :: int)"
    by code_simp
  ultimately show ?thesis
    using getWeekNumber_thursday [of z t] unfolding n0_def [symmetric] n_def [symmetric]
    by simp
qed

text \<open>
  C6 (as amended). In every time zone: the week number of an instant lies between 1 and 53
  unless its local date is one of 1, 2 and 3 January of the year 100, and on these three
  days it is -99085. When the two local times that \<open>getWeekBounds\<close> sets by day of the
  month stay on their days, the week starts at the instant of local Monday 00:00:00.000
  and ends at the instant of local Sunday 23:59:59.999; the end is then 6 days, 23 hours,
  59 minutes and 59.999 seconds after the start, less the amount by which the zone's offset
  grows between the two local times; and the instant lies within the bounds when no
  instant before the start reads Monday 00:00 or later on the local clock and no instant
  after the end reads Sunday 23:59:59.999 or earlier. In a zone whose offset is constant,
  the week always contains the instant and its end is always 6 days, 23 hours, 59 minutes
  and 59.999 seconds after its start.
\<close>

theorem week_of_instant:
  "(\<not> (getFullYear z t = 100 \<and> getMonth z t = 0 \<and> getDate z t \<le> 3)
      \<longrightarrow> 1 \<le> getWeekNumber z t \<and> getWeekNumber z t \<le> 53)
   \<and> (getFullYear z t = 100 \<and> getMonth z t = 0 \<and> getDate z t \<le> 3
      \<longrightarrow> getWeekNumber z t = - 99085)
   \<and> (setDate_keeps_days z t
      \<longrightarrow> getWeekBounds z t = (UTC z (mondayStart z t), UTC z (sundayEnd z t))
        \<and> snd (getWeekBounds z t) - fst (getWeekBounds z t)
            = 6 * msPerDay + MakeTime 23 59 59 999
              - (localOffset z (sundayEnd z t) - localOffset z (mondayStart z t))
        \<and> ((\<forall>u. u < UTC z (mondayStart z t) \<longrightarrow> LocalTime z u < mondayStart z t)
           \<and> (\<forall>u. UTC z (sundayEnd z t) < u \<longrightarrow> sundayEnd z t < LocalTime z u)
           \<longrightarrow> fst (getWeekBounds z t) \<le> t \<and> t \<le> snd (getWeekBounds z t)))
   \<and> fst (getWeekBounds (fixedZone a) t) \<le> t
   \<and> t \<le> snd (getWeekBounds (fixedZone a) t)
   \<and> snd (getWeekBounds (fixedZone a) t) - fst (getWeekBounds (fixedZone a) t)
       = 6 * msPerDay + MakeTime 23 59 59 999"
proof (intro conjI impI)
  assume n: "\<not> (getFullYear z t = 100 \<and> getMonth z t = 0 \<and> getDate z t \<le> 3)"
  show "1 \<le> getWeekNumber z t" by (rule getWeekNumber_range(1) [OF n])
  show "getWeekNumber z t \<le> 53" by (rule getWeekNumber_range(2) [OF n])
next
  assume h: "getFullYear z t = 100 \<and> getMonth z t = 0 \<and> getDate z t \<le> 3"
  show "getWeekNumber z t = - 99085"
    by (rule getWeekNumber_year_100) (simp_all add: h)
next
  assume k: "setDate_keeps_days z t"
  show "getWeekBounds z t = (UTC z (mondayStart z t), UTC z (sundayEnd z t))"
    by (rule getWeekBounds_eq [OF k])
  show "snd (getWeekBounds z t) - fst (getWeekBounds z t)
      = 6 * msPerDay + MakeTime 23 59 59 999
        - (localOffset z (sundayEnd z t) - localOffset z (mondayStart z t))"
    by (rule getWeekBounds_span [OF k])
  assume o: "(\<forall>u. u < UTC z (mondayStart z t) \<longrightarrow> LocalTime z u < mondayStart z t)
    \<and> (\<forall>u. UTC z (sundayEnd z t) < u \<longrightarrow> sundayEnd z t < LocalTime z u)"
  show "fst (getWeekBounds z t) \<le> t"
    by (rule getWeekBounds_contains(1) [OF k conjunct1 [OF o] conjunct2 [OF o]])
  show "t \<le> snd (getWeekBounds z t)"
    by (rule getWeekBounds_contains(2) [OF k conjunct1 [OF o] conjunct2 [OF o]])
next
  show "fst (getWeekBounds (fixedZone a) t) \<le> t" by (rule getWeekBounds_fixedZone(1))
  show "t \<le> snd (getWeekBounds (fixedZone a) t)" by (rule getWeekBounds_fixedZone(2))
  show "snd (getWeekBounds (fixedZone a) t) - fst (getWeekBounds (fixedZone a) t)
      = 6 * msPerDay + MakeTime 23 59 59 999"
    by (rule getWeekBounds_fixedZone(3))
qed

text \<open>
  The week of Wednesday 2025-03-05 in New York, which ends on the day the clocks go
  forward: it runs from 2025-03-03 05:00 UTC to 2025-03-10 03:59:59.999 UTC, contains the
  instant, and is an hour shorter than 6 days, 23 hours, 59 minutes and 59.999 seconds.
  The week of Monday 2024-12-30 at a constant offset of 5 hours 30 minutes contains its
  instant, and Saturday 0100-01-02 has week number -99085.
\<close>

theorem week_of_instant_witness:
  "getFullYear newYork2025 nyInstant = 2025
   \<and> 1 \<le> getWeekNumber newYork2025 nyInstant \<and> getWeekNumber newYork2025 nyInstant \<le> 53
   \<and> setDate_keeps_days newYork2025 nyInstant
   \<and> mondayStart newYork2025 nyInstant = 1740960000000
   \<and> sundayEnd newYork2025 nyInstant = 1741564799999
   \<and> getWeekBounds newYork2025 nyInstant = (1740978000000, 1741579199999)
   \<and> fst (getWeekBounds newYork2025 nyInstant) \<le> nyInstant
   \<and> nyInstant \<le> snd (getWeekBounds newYork2025 nyInstant)
   \<and> snd (getWeekBounds newYork2025 nyInstant) - fst (getWeekBounds newYork2025 nyInstant)
       = 6 * msPerDay + MakeTime 23 59 59 999 - 3600000
   \<and> fst (getWeekBounds (fixedZone 19800000) dec30) \<le> dec30
   \<and> dec30 \<le> snd (getWeekBounds (fixedZone 19800000) dec30)
   \<and> getFullYear utcZone (- 59011372800000) = 100
   \<and> getMonth utcZone (- 59011372800000) = 0
   \<and> getDate utcZone (- 59011372800000) = 2
   \<and> getWeekNumber utcZone (- 59011372800000) = - 99085"
proof -
  have c: "getFullYear utcZone (- 59011372800000) = 100"
    "getMonth utcZone (- 59011372800000) = 0"
    "getDate utcZone (- 59011372800000) = 2"
    by code_simp+
  from week_of_instant [of utcZone "- 59011372800000" 0] c
  have w: "getWeekNumber utcZone (- 59011372800000) = - 99085" by simp
  have y: "getFullYear newYork2025 nyInstant = 2025" by code_simp
  have k: "setDate_keeps_days newYork2025 nyInstant" by code_simp
  have m: "mondayStart newYork2025 nyInstant = 1740960000000" by code_simp
  have e: "sundayEnd newYork2025 nyInstant = 1741564799999" by code_simp
  have um: "UTC newYork2025 1740960000000 = 1740978000000" by code_simp
  have ue: "UTC newYork2025 1741564799999 = 1741579199999" by code_simp
  have lm: "localOffset newYork2025 1740960000000 = - 18000000" by code_simp
  have le: "localOffset newYork2025 1741564799999 = - 14400000" by code_simp
  have o1: "\<forall>u. u < UTC newYork2025 (mondayStart newYork2025 nyInstant)
      \<longrightarrow> LocalTime newYork2025 u < mondayStart newYork2025 nyInstant"
    unfolding m um by (simp add: LocalTime_def newYork2025_def)
  have o2: "\<forall>u. UTC newYork2025 (sundayEnd newYork2025 nyInstant) < u
      \<longrightarrow> sundayEnd newYork2025 nyInstant < LocalTime newYork2025 u"
    unfolding e ue by (simp add: LocalTime_def newYork2025_def)
  have n: "\<not> (getFullYear newYork2025 nyInstant = 100 \<and> getMonth newYork2025 nyInstant = 0
      \<and> getDate newYork2025 nyInstant \<le> 3)"
    using y by simp
  from week_of_instant [of newYork2025 nyInstant 19800000] n k o1 o2
  have "1 \<le> getWeekNumber newYork2025 nyInstant" "getWeekNumber newYork2025 nyInstant \<le> 53"
    "getWeekBounds newYork2025 nyInstant
       = (UTC newYork2025 (mondayStart newYork2025 nyInstant),
          UTC newYork2025 (sundayEnd newYork2025 nyInstant))"
    "snd (getWeekBounds newYork2025 nyInstant) - fst (getWeekBounds newYork2025 nyInstant)
       = 6 * msPerDay + MakeTime 23 59 59 999
         - (localOffset newYork2025 (sundayEnd newYork2025 nyInstant)
            - localOffset newYork2025 (mondayStart newYork2025 nyInstant))"
    "fst (getWeekBounds newYork2025 nyInstant) \<le> nyInstant"
    "nyInstant \<le> snd (getWeekBounds newYork2025 nyInstant)"
    "fst (getWeekBounds (fixedZone 19800000) nyInstant) \<le> nyInstant"
    by blast+
  moreover from week_of_instant [of newYork2025 dec30 19800000]
  have "fst (getWeekBounds (fixedZone 19800000) dec30) \<le> dec30"
    "dec30 \<le> snd (getWeekBounds (fixedZone 19800000) dec30)"
    by blast+
  ultimately show ?thesis
    using y k c w by (simp add: m e um ue lm le)
qed

text \<open>
  The claim as the specification words it fails in three ways. In New York the week of
  2025-03-05 is 6 days, 22 hours, 59 minutes and 59.999 seconds long. In Tehran at
  2020-09-20 20:00 UTC, when the clock reads Sunday 23:30 for the second time, the week
  ends at 19:59:59.999 UTC, before the instant. At 0100-01-01 00:00 UTC the week number
  is -99085.
\<close>

theorem week_of_instant_counterexample:
  "getWeekBounds newYork2025 nyInstant = (1740978000000, 1741579199999)
   \<and> snd (getWeekBounds newYork2025 nyInstant) - fst (getWeekBounds newYork2025 nyInstant)
       = 601199999
   \<and> 6 * msPerDay + MakeTime 23 59 59 999 = 604799999
   \<and> getFullYear tehran2020 tehranInstant = 2020
   \<and> getWeekBounds tehran2020 tehranInstant = (1600025400000, 1600630199999)
   \<and> \<not> tehranInstant \<le> snd (getWeekBounds tehran2020 tehranInstant)
   \<and> getFullYear utcZone (- 59011459200000) = 100
   \<and> getMonth utcZone (- 59011459200000) = 0
   \<and> getDate utcZone (- 59011459200000) = 1
   \<and> getWeekNumber utcZone (- 59011459200000) = - 99085
   \<and> \<not> 1 \<le> getWeekNumber utcZone (- 59011459200000)"
  by code_simp

text \<open>
  C5. The year stored with the week number is the calendar year of the date, not the ISO
  week-year. Monday 2024-12-30 belongs to ISO week 1 of 2025, and \<open>getOrCreate\<close> keys it
  under year 2024, week 1: the key of Wednesday 2024-01-03. After a document was created
  for 2024-01-03, \<open>getOrCreate\<close> for 2024-12-30 returns that document, whose bounds are
  2024-01-01 and 2024-01-07, and creates none.
\<close>

theorem weekly_key_is_calendar_year:
  "getFullYear utcZone dec30 = 2024 \<and> getWeekNumber utcZone dec30 = 1 \<and> iso_week_year utcZone dec30 = 2025
   \<and> getFullYear utcZone jan3 = 2024 \<and> getWeekNumber utcZone jan3 = 1 \<and> iso_week_year utcZone jan3 = 2024
   \<and> (case getOrCreate utcZone 1 jan3 emptyDb of
         Inl e \<Rightarrow> None
       | Inr (w, s1) \<Rightarrow>
           (case getOrCreate utcZone 1 dec30 s1 of
              Inl e \<Rightarrow> None
            | Inr (w', s2) \<Rightarrow>
                Some (w' = w, length (weeklyStats s2), year w', weekNumber w',
                      weekStartDate w', weekEndDate w')))
       = Some (True, 1, 2024, 1, 1704067200000, 1704671999999)"
  by code_simp

section \<open>Best efforts\<close>

lemma effort_in: "D \<in> set effortDistances \<longleftrightarrow> D = 10 \<or> D = 20 \<or> D = 25 \<or> D = 50 \<or> D = 75 \<or> D = 100"
  by (auto simp: effortDistances_def)

lemma get_set_effort:
  assumes "D \<in> set effortDistances" and "D' \<in> set effortDistances"
  shows "get_effort (set_effort u D' v) D = (if D = D' then Some v else get_effort u D)"
  using assms unfolding effort_in by (auto simp: get_effort_def set_effort_def)

lemma get_effort_step:
  assumes "D \<in> set effortDistances" and "D' \<in> set effortDistances"
  shows "get_effort (effort_step r u D') D =
           (if D = D' then best_after r D (get_effort u D) else get_effort u D)"
  using assms
  by (simp add: effort_step_def best_after_def Let_def get_set_effort not_less
           split: option.split)

lemma get_effort_foldl:
  assumes "D \<in> set effortDistances" and "set Ds \<subseteq> set effortDistances" and "distinct Ds"
  shows "get_effort (foldl (effort_step r) u Ds) D =
           (if D \<in> set Ds then best_after r D (get_effort u D) else get_effort u D)"
  using assms(2,3)
proof (induction Ds arbitrary: u)
  case Nil
  show ?case by simp
next
  case (Cons a Ds)
  then have a: "a \<in> set effortDistances" and Ds: "set Ds \<subseteq> set effortDistances"
    and d: "distinct Ds" and na: "a \<notin> set Ds"
    by simp_all
  show ?case
    using na a assms(1) by (auto simp: Cons.IH [OF Ds d] get_effort_step)
qed

lemma get_effort_updateBestEfforts:
  assumes "D \<in> set effortDistances"
  shows "get_effort (updateBestEfforts u r) D = best_after r D (get_effort u D)"
proof -
  have "distinct effortDistances" by (simp add: effortDistances_def)
  then show ?thesis
    unfolding updateBestEfforts_def using assms by (simp add: get_effort_foldl)
qed

lemma get_effort_updateUserStats_fields:
  assumes "D \<in> set effortDistances"
  shows "get_effort (updateUserStats_fields z now u r) D = best_after r D (get_effort u D)"
  by (simp add: updateUserStats_fields_def Let_def get_effort_updateBestEfforts [OF assms])
     (simp add: get_effort_def)

lemma js_less_trans: "js_less a b \<Longrightarrow> js_less b c \<Longrightarrow> js_less a c"
  by (cases a; cases b; cases c) auto

lemma best_after_Some:
  "\<exists>b'. best_after r D (Some b) = Some b' \<and> (b' = b \<or> js_less b' b)"
  by (simp add: best_after_def Let_def)

lemma best_after_None:
  "best_after r D None \<noteq> None \<Longrightarrow> real D \<le> distance r"
  by (simp add: best_after_def split: if_splits)

lemma efforts_never_worse:
  assumes "D \<in> set effortDistances" and "get_effort u D = Some b"
  shows "\<exists>b'. get_effort (foldl (updateUserStats_fields z now) u rs) D = Some b'
              \<and> (b' = b \<or> js_less b' b)"
  using assms(2)
proof (induction rs arbitrary: u b)
  case Nil
  then show ?case by simp
next
  case (Cons r rs)
  let ?u = "updateUserStats_fields z now u r"
  obtain b1 where b1: "get_effort ?u D = Some b1" and l1: "b1 = b \<or> js_less b1 b"
    using best_after_Some [of r D b] Cons.prems
    by (auto simp: get_effort_updateUserStats_fields [OF assms(1)])
  obtain b' where b': "get_effort (foldl (updateUserStats_fields z now) ?u rs) D = Some b'"
    and l2: "b' = b1 \<or> js_less b' b1"
    using Cons.IH [OF b1] by blast
  from l1 l2 have "b' = b \<or> js_less b' b" by (auto intro: js_less_trans)
  with b' show ?case by simp
qed

lemma efforts_need_a_ride:
  assumes "D \<in> set effortDistances" and "get_effort u D = None"
    and "get_effort (foldl (updateUserStats_fields z now) u rs) D \<noteq> None"
  shows "\<exists>r\<in>set rs. real D \<le> distance r"
  using assms(2,3)
proof (induction rs arbitrary: u)
  case Nil
  then show ?case by simp
next
  case (Cons r rs)
  let ?u = "updateUserStats_fields z now u r"
  show ?case
  proof (cases "get_effort ?u D")
    case None
    then show ?thesis using Cons.IH [of ?u] Cons.prems by simp
  next
    case (Some b1)
    then have "best_after r D None \<noteq> None"
      using Cons.prems(1) by (simp add: get_effort_updateUserStats_fields [OF assms(1)])
    then have "real D \<le> distance r" by (rule best_after_None)
    then show ?thesis by simp
  qed
qed

text \<open>
  C7. For every target distance \<open>D\<close> of 10, 20, 25, 50, 75 and 100 km, the best-effort
  update leaves the stored time alone when the ride is shorter than \<open>D\<close>, and otherwise
  stores the estimate \<open>D / averageSpeed * 3600\<close> when no time is stored or the estimate is
  strictly smaller. Over any sequence of rides, a stored time stays stored and is the
  same or strictly smaller afterwards, and a time that was null is only set when one of
  the rides covers at least \<open>D\<close> km.
\<close>

theorem best_efforts_update:
  assumes "D \<in> set effortDistances"
  shows "get_effort (updateBestEfforts u r) D = best_after r D (get_effort u D)
       \<and> (\<forall>b. get_effort u D = Some b \<longrightarrow>
            (\<exists>b'. get_effort (foldl (updateUserStats_fields z now) u rs) D = Some b'
                  \<and> (b' = b \<or> js_less b' b)))
       \<and> (get_effort u D = None
            \<and> get_effort (foldl (updateUserStats_fields z now) u rs) D \<noteq> None
          \<longrightarrow> (\<exists>r\<in>set rs. real D \<le> distance r))"
  using get_effort_updateBestEfforts [OF assms] efforts_never_worse [OF assms]
    efforts_need_a_ride [OF assms]
  by blast

theorem best_efforts_update_witness:
  "(20::nat) \<in> set effortDistances
   \<and> get_effort (updateBestEfforts newUser exRide) 20 = Some (Fin 2880)
   \<and> get_effort exUser 20 = Some (Fin 2880)
   \<and> get_effort (foldl (updateUserStats_fields utcZone exNow) exUser
          [exRide\<lparr>distance := 40, averageSpeed := 30\<rparr>]) 20 = Some (Fin 2400)
   \<and> js_less (Fin 2400) (Fin 2880)
   \<and> get_effort newUser 20 = None
   \<and> get_effort (foldl (updateUserStats_fields utcZone exNow) newUser [exRide]) 20 \<noteq> None
   \<and> (\<exists>r\<in>set [exRide]. real (20::nat) \<le> distance r)"
proof -
  have h: "(20::nat) \<in> set effortDistances" by (simp add: effortDistances_def)
  have e1: "best_after exRide 20 (get_effort newUser 20) = Some (Fin 2880)" by code_simp
  have e2: "get_effort exUser 20 = Some (Fin 2880)" by code_simp
  have e3: "js_less (Fin 2400) (Fin 2880)" by simp
  have e4: "get_effort newUser 20 = None" by code_simp
  have e5: "get_effort (foldl (updateUserStats_fields utcZone exNow) newUser [exRide]) 20 \<noteq> None"
    by code_simp
  have e6: "best_after (exRide\<lparr>distance := 40, averageSpeed := 30\<rparr>) 20 (Some (Fin 2880))
      = Some (Fin 2400)"
    by code_simp
  note t1 = best_efforts_update [OF h, where u = newUser and r = exRide and z = utcZone
      and now = exNow and rs = "[exRide]"]
  from t1 e1 have c1: "get_effort (updateBestEfforts newUser exRide) 20 = Some (Fin 2880)"
    by simp
  from t1 e4 e5 have c2: "\<exists>r\<in>set [exRide]. real (20::nat) \<le> distance r"
    by blast
  have "get_effort (foldl (updateUserStats_fields utcZone exNow) exUser
          [exRide\<lparr>distance := 40, averageSpeed := 30\<rparr>]) 20
      = best_after (exRide\<lparr>distance := 40, averageSpeed := 30\<rparr>) 20 (get_effort exUser 20)"
    by (simp add: get_effort_updateUserStats_fields [OF h])
  with e2 e6 have c3: "get_effort (foldl (updateUserStats_fields utcZone exNow) exUser
          [exRide\<lparr>distance := 40, averageSpeed := 30\<rparr>]) 20 = Some (Fin 2400)"
    by simp
  from h c1 e2 c3 e3 e4 e5 c2 show ?thesis by blast
qed

section \<open>Recompute and replay\<close>

lemma coins_year_commute:
  "u\<lparr>totalCoins := a, distanceThisYear := b\<rparr> = u\<lparr>distanceThisYear := b, totalCoins := a\<rparr>"
  by (cases u) simp

lemma recalculate_loop_step:
  assumes "getFullYear z n = cy"
  shows "recalculate_loop z cy u (r # rs)
           = recalculate_loop z cy (updateUserStats_fields z n u r) rs"
  unfolding recalculate_loop.simps updateUserStats_fields_def Let_def assms
  by (cases "getFullYear z (activityDate r) = cy";
      cases "longestRideDistance u < distance r";
      cases "longestRideTime u < movingTime r";
      cases "maxElevationGained u < elevationGained r")
     (simp_all add: coins_year_commute)

lemma replay_recalculate_loop:
  assumes "length nows = length rs"
    and "list_all (\<lambda>n. getFullYear z n = cy) nows"
    and "users s uid = Some u"
  shows "replay z uid (zip nows rs) s
           = Inr (s\<lparr>users := (users s)(uid \<mapsto> recalculate_loop z cy u rs)\<rparr>)"
  using assms
proof (induction rs arbitrary: nows s u)
  case Nil
  then have "(users s)(uid \<mapsto> u) = users s" by (simp add: map_upd_triv)
  then show ?case by simp
next
  case (Cons r rs)
  then obtain n ns where nows: "nows = n # ns" by (cases nows) simp_all
  with Cons.prems have len: "length ns = length rs"
    and yr: "getFullYear z n = cy" and all: "list_all (\<lambda>n. getFullYear z n = cy) ns"
    by simp_all
  let ?u1 = "updateUserStats_fields z n u r"
  let ?s1 = "s\<lparr>users := (users s)(uid \<mapsto> ?u1)\<rparr>"
  have st: "updateUserStats z n uid r s = Inr ?s1"
    using Cons.prems(3) by (simp add: updateUserStats_def)
  have u1: "users ?s1 uid = Some ?u1" by simp
  have "replay z uid (zip nows (r # rs)) s = replay z uid (zip ns rs) ?s1"
    by (simp add: nows st)
  also have "\<dots> = Inr (?s1\<lparr>users := (users ?s1)(uid \<mapsto> recalculate_loop z cy ?u1 rs)\<rparr>)"
    by (rule Cons.IH [OF len all u1])
  also have "\<dots> = Inr (s\<lparr>users := (users s)(uid \<mapsto> recalculate_loop z cy u (r # rs))\<rparr>)"
    by (subst recalculate_loop_step [OF yr]) simp
  finally show ?case .
qed

text \<open>
  C1. For every user and every ride history, \<open>recalculateUserStats\<close> returns the database
  that replaying the user's rides in the order of their activity dates through
  \<open>updateUserStats\<close>, starting from the zeroed aggregate, returns, when every replayed call
  reads a clock in the calendar year that the recomputation reads.
\<close>

theorem recalculate_equals_replay:
  assumes "users s uid = Some u"
    and "history = sort_key activityDate (filter (\<lambda>r. userId r = uid) (rides s))"
    and "length nows = length history"
    and "list_all (\<lambda>n. getFullYear z n = getFullYear z now) nows"
  shows "recalculateUserStats z now uid s
           = replay z uid (zip nows history) (s\<lparr>users := (users s)(uid \<mapsto> zeroed_aggregate u)\<rparr>)"
proof -
  let ?s0 = "s\<lparr>users := (users s)(uid \<mapsto> zeroed_aggregate u)\<rparr>"
  have u0: "users ?s0 uid = Some (zeroed_aggregate u)" by simp
  have "replay z uid (zip nows history) ?s0
      = Inr (?s0\<lparr>users := (users ?s0)(uid \<mapsto>
              recalculate_loop z (getFullYear z now) (zeroed_aggregate u) history)\<rparr>)"
    by (rule replay_recalculate_loop [OF assms(3) assms(4) u0])
  also have "\<dots> = recalculateUserStats z now uid s"
    using assms(1) by (simp add: recalculateUserStats_def Let_def assms(2) zeroed_aggregate_def)
  finally show ?thesis by simp
qed

theorem recalculate_equals_replay_witness:
  "users exHistory 1 = Some exUser
   \<and> [exOld, exRide] = sort_key activityDate (filter (\<lambda>r. userId r = 1) (rides exHistory))
   \<and> length [exNow, exNow + 1000] = length [exOld, exRide]
   \<and> list_all (\<lambda>n. getFullYear utcZone n = getFullYear utcZone exNow) [exNow, exNow + 1000]
   \<and> recalculateUserStats utcZone exNow 1 exHistory
       = replay utcZone 1 (zip [exNow, exNow + 1000] [exOld, exRide])
           (exHistory\<lparr>users := (users exHistory)(1 \<mapsto> zeroed_aggregate exUser)\<rparr>)
   \<and> map_sum id
         (\<lambda>s. map_option (\<lambda>u. (totalDistance u, distanceThisYear u, totalCoins u, best50kmTime u))
                (users s 1))
         (recalculateUserStats utcZone exNow 1 exHistory)
       = Inr (Some (70, 20, 875, Some (Fin 7200)))"
proof -
  have h1: "users exHistory 1 = Some exUser" by code_simp
  have h2: "[exOld, exRide] = sort_key activityDate (filter (\<lambda>r. userId r = 1) (rides exHistory))"
    by code_simp
  have h3: "length [exNow, exNow + 1000] = length [exOld, exRide]" by simp
  have h4: "list_all (\<lambda>n. getFullYear utcZone n = getFullYear utcZone exNow) [exNow, exNow + 1000]"
    by code_simp
  have v: "map_sum id
         (\<lambda>s. map_option (\<lambda>u. (totalDistance u, distanceThisYear u, totalCoins u, best50kmTime u))
                (users s 1))
         (recalculateUserStats utcZone exNow 1 exHistory)
       = Inr (Some (70, 20, 875, Some (Fin 7200)))"
    by code_simp
  from recalculate_equals_replay [OF h1 h2 h3 h4] h1 h2 h3 h4 v show ?thesis by blast
qed

section \<open>Deleting a ride\<close>

lemma users_inc_totalCoins:
  "users (inc_totalCoins uid n s) =
     (case users s uid of None \<Rightarrow> users s
      | Some u \<Rightarrow> (users s)(uid \<mapsto> u\<lparr>totalCoins := totalCoins u + n\<rparr>))"
  by (simp add: inc_totalCoins_def split: option.split)

lemma users_reversed: "users (inc_totalCoins (userId r) (- coinsEarned r) s) = coins_reversed r s"
  by (simp add: users_inc_totalCoins coins_reversed_def split: option.split)

lemma weeklyStats_inc_totalCoins: "weeklyStats (inc_totalCoins uid n s) = weeklyStats s"
  by (simp add: inc_totalCoins_def split: option.split)

lemma users_deleteRide:
  assumes "Ride_findById rid s = Some r" and "userId r = uid"
  shows "deleteRide uid rid s = (200, snd (deleteRide uid rid s))"
    and "users (snd (deleteRide uid rid s)) = coins_reversed r s"
  using assms users_reversed [of r s]
  by (auto simp: deleteRide_def Ride_findByIdAndDelete_def)

lemma users_admin_deleteRide:
  assumes "Ride_findById rid s = Some r"
  shows "users (snd (admin_deleteRide aid rid s)) = coins_reversed r s"
  using assms users_reversed [of r s]
  by (simp add: admin_deleteRide_def Ride_findByIdAndDelete_def Let_def)

lemma users_reviewFlag:
  assumes "find (\<lambda>f. flagId f = fid) (flags s) = Some f" and "status f = pending"
    and "Ride_findById (flagRideId f) s = Some r"
  shows "users (snd (reviewFlag aid fid s)) = coins_reversed r s"
  using assms users_reversed [of r s]
  by (simp add: reviewFlag_def Ride_findByIdAndDelete_def Let_def)

text \<open>
  C8. When the owner deletes a ride, when an administrator deletes it, and when an
  administrator reviews a pending flag on it, the users afterwards are the users before
  with the ride's coins taken from its owner's \<open>totalCoins\<close>: no other field of the owner
  and no other user changes.
\<close>

theorem deletion_reverses_only_coins:
  assumes "Ride_findById rid s = Some r"
  shows "(userId r = uid \<longrightarrow> users (snd (deleteRide uid rid s)) = coins_reversed r s)
       \<and> users (snd (admin_deleteRide aid rid s)) = coins_reversed r s
       \<and> (find (\<lambda>f. flagId f = fid) (flags s) = Some f \<and> status f = pending \<and> flagRideId f = rid
            \<longrightarrow> users (snd (reviewFlag aid fid s)) = coins_reversed r s)"
  using users_deleteRide(2) [OF assms] users_admin_deleteRide [OF assms] users_reviewFlag assms
  by blast

theorem deletion_reverses_only_coins_witness:
  "Ride_findById 1 exStored = Some exRide \<and> userId exRide = 1
   \<and> find (\<lambda>f. flagId f = 7) (flags exStored) = Some \<lparr>flagId = 7, flagRideId = 1, status = pending\<rparr>
   \<and> users (snd (deleteRide 1 1 exStored)) = coins_reversed exRide exStored
   \<and> users (snd (admin_deleteRide 9 1 exStored)) = coins_reversed exRide exStored
   \<and> users (snd (reviewFlag 9 7 exStored)) = coins_reversed exRide exStored
   \<and> coins_reversed exRide exStored 1 = Some (exUser\<lparr>totalCoins := 0\<rparr>)"
proof -
  have h1: "Ride_findById 1 exStored = Some exRide" by code_simp
  have h2: "userId exRide = 1" by code_simp
  have h3: "find (\<lambda>f. flagId f = 7) (flags exStored)
      = Some \<lparr>flagId = 7, flagRideId = 1, status = pending\<rparr>"
    by code_simp
  have h4: "status \<lparr>flagId = 7, flagRideId = 1, status = pending\<rparr> = pending
      \<and> flagRideId \<lparr>flagId = 7, flagRideId = 1, status = pending\<rparr> = 1"
    by simp
  have v: "coins_reversed exRide exStored 1 = Some (exUser\<lparr>totalCoins := 0\<rparr>)" by code_simp
  from deletion_reverses_only_coins [OF h1, where uid = 1 and aid = 9 and fid = 7
      and f = "\<lparr>flagId = 7, flagRideId = 1, status = pending\<rparr>"] h1 h2 h3 h4 v
  show ?thesis by blast
qed

text \<open>
  C10. Neither the owner's deletion of a ride, nor the administrator's, nor the review of a
  flag, nor the deletion of an account, nor the full recomputation changes the weekly
  aggregates: the document of a deleted ride's week keeps the ride's distance, count, coins
  and moving time.
\<close>

theorem weekly_stats_untouched:
  "weeklyStats (snd (deleteRide uid rid s)) = weeklyStats s
   \<and> weeklyStats (snd (admin_deleteRide aid rid s)) = weeklyStats s
   \<and> weeklyStats (snd (reviewFlag aid fid s)) = weeklyStats s
   \<and> weeklyStats (snd (deleteAccount uid s)) = weeklyStats s
   \<and> map_sum id weeklyStats (recalculateUserStats z now uid s)
       = (if users s uid = None then Inl UserNotFound else Inr (weeklyStats s))"
proof -
  have c': "weeklyStats (snd (deleteAccount uid s)) = weeklyStats s"
    by (simp add: deleteAccount_def)
  have a: "weeklyStats (snd (deleteRide uid rid s)) = weeklyStats s"
    by (simp add: deleteRide_def Ride_findByIdAndDelete_def weeklyStats_inc_totalCoins
          split: option.split)
  have b: "weeklyStats (snd (admin_deleteRide aid rid s)) = weeklyStats s"
    by (simp add: admin_deleteRide_def Ride_findByIdAndDelete_def weeklyStats_inc_totalCoins Let_def
          split: option.split)
  have c: "weeklyStats (snd (reviewFlag aid fid s)) = weeklyStats s"
    by (simp add: reviewFlag_def Ride_findByIdAndDelete_def weeklyStats_inc_totalCoins Let_def
          split: option.split)
  have d: "map_sum id weeklyStats (recalculateUserStats z now uid s)
       = (if users s uid = None then Inl UserNotFound else Inr (weeklyStats s))"
    by (simp add: recalculateUserStats_def Let_def split: option.split)
  from a b c c' d show ?thesis by blast
qed

theorem weekly_stats_untouched_witness:
  "weeklyStats exStored = [exWeek]
   \<and> rides (snd (deleteRide 1 1 exStored)) = []
   \<and> weeklyStats (snd (deleteRide 1 1 exStored)) = [exWeek]
   \<and> map_sum id weeklyStats (recalculateUserStats utcZone exNow 1 (snd (deleteRide 1 1 exStored)))
       = Inr [exWeek]"
proof -
  have e1: "weeklyStats exStored = [exWeek]" by (simp add: exStored_def)
  have e2: "rides (snd (deleteRide 1 1 exStored)) = []" by code_simp
  have e3: "users (snd (deleteRide 1 1 exStored)) 1 \<noteq> None" by code_simp
  note t1 = weekly_stats_untouched [where uid = 1 and rid = 1 and s = exStored]
  note t2 = weekly_stats_untouched [where uid = 1 and s = "snd (deleteRide 1 1 exStored)"
      and z = utcZone and now = exNow]
  from t1 e1 have c1: "weeklyStats (snd (deleteRide 1 1 exStored)) = [exWeek]" by simp
  from t2 e3 c1 have c2:
    "map_sum id weeklyStats (recalculateUserStats utcZone exNow 1 (snd (deleteRide 1 1 exStored)))
       = Inr [exWeek]"
    by simp
  from e1 e2 c1 c2 show ?thesis by blast
qed

section \<open>Creating a ride\<close>

lemma createRide_stores_calculateCoins:
  assumes "fst (createRide now rid uid b st) = 201"
  shows "map coinsEarned (rides (snd (createRide now rid uid b st)))
           = map coinsEarned (rides st) @ [calculateCoins (reqDistance b) (reqAverageSpeed b)]"
proof -
  have r: "rides (inc_totalCoins u n s) = rides s" for u n s
    by (simp add: inc_totalCoins_def split: option.split)
  show ?thesis
    using assms unfolding createRide_def Ride_save_def Let_def calculateCoins_def
    by (auto simp: r split: if_splits)
qed

text \<open>
  C3. \<open>createRide\<close> computes the coins, stores the ride and adds the coins to the user's
  \<open>totalCoins\<close>; it calls neither \<open>updateUserStats\<close> nor \<open>updateWeeklyStats\<close>. For the
  example ride of a new user, the user afterwards has 250 coins and every other aggregate
  field as before (total distance 0, no best effort), and there is no weekly aggregate;
  \<open>updateUserStats\<close> and \<open>updateWeeklyStats\<close> on the same ride give the user a total
  distance of 20 with best efforts for 10 and 20 km, and a weekly aggregate for week 1 of
  2025.
\<close>

theorem createRide_updates_coins_only:
  "fst (createRide exNow 1 1 exBody exDb) = 201
   \<and> rides (snd (createRide exNow 1 1 exBody exDb)) = [exRide]
   \<and> users (snd (createRide exNow 1 1 exBody exDb)) 1 = Some (newUser\<lparr>totalCoins := 250\<rparr>)
   \<and> weeklyStats (snd (createRide exNow 1 1 exBody exDb)) = []
   \<and> map_sum id (\<lambda>s. users s 1) (updateUserStats utcZone exNow 1 exRide exDb) = Inr (Some exUser)
   \<and> map_sum id (\<lambda>(w, s). weeklyStats s) (updateWeeklyStats utcZone 1 exRide exDb) = Inr [exWeek]"
  by code_simp

section \<open>The weekly aggregate\<close>

lemma updateWeeklyStats_averageSpeed:
  assumes "updateWeeklyStats z uid r s = Inr (w, s')"
  shows "wsAverageSpeed w = js_div (wsTotalDistance w) (totalMovingTime w / 3600)"
  using assms
  by (auto simp: updateWeeklyStats_def Let_def split: sum.splits prod.splits)

text \<open>
  C4. \<open>updateWeeklyStats\<close> divides the total distance by the total moving time in hours
  with no guard: for a first ride of the week with a moving time of 0 and a distance of
  20, the total moving time is 0 and the average speed is plus infinity, not 0.
\<close>

theorem updateWeeklyStats_divides_by_zero:
  "map_sum id (\<lambda>(w, s). (wsTotalDistance w, totalMovingTime w, wsAverageSpeed w))
     (updateWeeklyStats utcZone 1 (exRide\<lparr>movingTime := 0\<rparr>) exDb)
   = Inr (20, 0, PosInf)"
  by code_simp

end
